theory Spec2Isabelle
  imports Complex_Main "HOL-Library.Multiset"
begin

section \<open>Data model (types.ts)\<close>

text \<open>
  A JavaScript \<^verbatim>\<open>number\<close> is modelled by a real number: arithmetic is exact, there is
  no rounding, no NaN and no infinity.  Identifiers that the application draws from the
  clock are integers.  An object type of the source is a record; a structural supertype
  such as \<^verbatim>\<open>{x: number, y: number}\<close> is the parent record of \<^verbatim>\<open>Point\<close>, so that a
  function of the source that accepts any object with \<^verbatim>\<open>x\<close> and \<^verbatim>\<open>y\<close> accepts a
  \<^verbatim>\<open>Point\<close> here as well.  Fields are renamed only where a name would clash:
  \<^verbatim>\<open>x\<close>, \<^verbatim>\<open>y\<close>, \<^verbatim>\<open>id\<close> become \<open>px\<close>, \<open>py\<close>, \<open>pid\<close> for points, and so on.
\<close>

record Pos =
  px :: real
  py :: real

record Point = Pos +
  pid :: int

record Wall =
  wall_id :: int
  p1Id :: int
  p2Id :: int

record TileDimensions =
  dim_width :: real
  dim_height :: real

record Rect =
  rect_x :: real
  rect_y :: real
  width :: real
  height :: real

record Tile = Rect +
  tile_id :: int
  color :: string
  number :: "string option"

record CalculationResult =
  tileCount :: real
  colorCount :: nat
  tileCountsByColor :: "(string \<times> real) list"
  cr_total :: real
  cr_polygonArea :: real
  cr_perimeter :: real

record Area =
  area_id :: int
  area_name :: string
  points :: "Point list"
  walls :: "Wall list"
  area_color :: string
  isClosed :: bool
  calculationResult :: "CalculationResult option"
  isVisible :: bool

record CutTilePiece =
  piece_id :: string
  originalTile :: Tile
  polygons :: "Point list list"
  cutSegments :: "Point list list option"
  piece_x :: real
  piece_y :: real
  isOffcut :: bool
  wastePercentage :: real

definition TILE_COLORS :: "string list" where
  "TILE_COLORS =
     [''#ef4444'', ''#f97316'', ''#eab308'', ''#84cc16'', ''#22c55e'',
      ''#06b6d4'', ''#3b82f6'', ''#8b5cf6'', ''#ec4899'', ''#78716c'']"

definition mkPoint :: "int \<Rightarrow> real \<Rightarrow> real \<Rightarrow> Point" where
  "mkPoint i a b = \<lparr>px = a, py = b, pid = i\<rparr>"

section \<open>Geometry kernel (lib/geometry.ts)\<close>

definition EPSILON :: real where
  "EPSILON = 1 / 10 ^ 9"

definition distance :: "'a Pos_scheme \<Rightarrow> 'b Pos_scheme \<Rightarrow> real" where
  "distance p1 p2 = sqrt ((px p2 - px p1) ^ 2 + (py p2 - py p1) ^ 2)"

text \<open>The loop of \<^verbatim>\<open>polygonArea\<close>: \<open>p_j\<close> is \<^verbatim>\<open>polygon[j]\<close>, the vertex visited before.\<close>

fun shoelace :: "Point \<Rightarrow> Point list \<Rightarrow> real \<Rightarrow> real" where
  "shoelace p_j [] area = area"
| "shoelace p_j (p_i # ps) area = shoelace p_i ps ((area + px p_i * py p_j) - px p_j * py p_i)"

definition polygonArea :: "Point list \<Rightarrow> real" where
  "polygonArea polygon =
     (if length polygon < 3 then 0
      else \<bar>shoelace (last polygon) polygon 0 / 2\<bar>)"

definition polygonPerimeter :: "Point list \<Rightarrow> real" where
  "polygonPerimeter polygon =
     foldl (\<lambda>perimeter i.
              perimeter + distance (polygon ! i) (polygon ! ((i + 1) mod length polygon)))
       0 [0..<length polygon]"

definition onSegment :: "Point \<Rightarrow> Point \<Rightarrow> Point \<Rightarrow> bool" where
  "onSegment p q r \<longleftrightarrow>
     px q \<le> max (px p) (px r) \<and> px q \<ge> min (px p) (px r) \<and>
     py q \<le> max (py p) (py r) \<and> py q \<ge> min (py p) (py r)"

definition orientation :: "Point \<Rightarrow> Point \<Rightarrow> Point \<Rightarrow> nat" where
  "orientation p q r =
     (let val = (py q - py p) * (px r - px q) - (px q - px p) * (py r - py q)
      in if \<bar>val\<bar> < EPSILON then 0 else if val > 0 then 1 else 2)"

definition segmentsIntersect :: "Point \<Rightarrow> Point \<Rightarrow> Point \<Rightarrow> Point \<Rightarrow> bool" where
  "segmentsIntersect p1 q1 p2 q2 =
     (let o1 = orientation p1 q1 p2;
          o2 = orientation p1 q1 q2;
          o3 = orientation p2 q2 p1;
          o4 = orientation p2 q2 q1
      in if o1 \<noteq> o2 \<and> o3 \<noteq> o4 then True
         else if o1 = 0 \<and> onSegment p1 p2 q1 then True
         else if o2 = 0 \<and> onSegment p1 q2 q1 then True
         else if o3 = 0 \<and> onSegment p2 p1 q2 then True
         else if o4 = 0 \<and> onSegment p2 q1 q2 then True
         else False)"

definition onEdge :: "'a Pos_scheme \<Rightarrow> Point list \<Rightarrow> nat \<Rightarrow> bool" where
  "onEdge point polygon i =
     (let p1 = polygon ! i;
          p2 = polygon ! ((i + 1) mod length polygon);
          d_p1_p2 = distance p1 p2;
          d_p1_point = distance p1 point;
          d_point_p2 = distance point p2
      in \<bar>d_p1_point + d_point_p2 - d_p1_p2\<bar> < EPSILON)"

definition rayStep :: "'a Pos_scheme \<Rightarrow> Point list \<Rightarrow> bool \<Rightarrow> nat \<Rightarrow> bool" where
  "rayStep point polygon isInside i =
     (let j = (if i = 0 then length polygon - 1 else i - 1);
          p_i = polygon ! i;
          p_j = polygon ! j;
          intersect = ((py p_i > py point) \<noteq> (py p_j > py point)
            \<and> px point < (px p_j - px p_i) * (py point - py p_i) / (py p_j - py p_i) + px p_i)
      in if intersect then \<not> isInside else isInside)"

definition pointInPolygon :: "'a Pos_scheme \<Rightarrow> Point list \<Rightarrow> bool" where
  "pointInPolygon point polygon =
     (let n = length polygon
      in if n < 3 then False
         else if list_ex (onEdge point polygon) [0..<n] then True
         else foldl (rayStep point polygon) False [0..<n])"

definition rectPoints :: "'a Rect_scheme \<Rightarrow> Point list" where
  "rectPoints rect =
     [mkPoint (- 1) (rect_x rect) (rect_y rect),
      mkPoint (- 2) (rect_x rect + width rect) (rect_y rect),
      mkPoint (- 3) (rect_x rect + width rect) (rect_y rect + height rect),
      mkPoint (- 4) (rect_x rect) (rect_y rect + height rect)]"

definition polygonIntersectsRectangle :: "Point list \<Rightarrow> 'a Rect_scheme \<Rightarrow> bool" where
  "polygonIntersectsRectangle polygon rect =
     (let rps = rectPoints rect
      in if list_ex (\<lambda>p. px p \<ge> rect_x rect \<and> px p \<le> rect_x rect + width rect
                        \<and> py p \<ge> rect_y rect \<and> py p \<le> rect_y rect + height rect) polygon
         then True
         else if list_ex (\<lambda>p. pointInPolygon p polygon) rps then True
         else if list_ex (\<lambda>i. list_ex (\<lambda>j.
                     segmentsIntersect (polygon ! i) (polygon ! ((i + 1) mod length polygon))
                       (rps ! j) (rps ! ((j + 1) mod length rps)))
                   [0..<length rps]) [0..<length polygon]
         then True
         else False)"

definition getLineIntersection ::
  "'a Pos_scheme \<Rightarrow> 'b Pos_scheme \<Rightarrow> 'c Pos_scheme \<Rightarrow> 'd Pos_scheme \<Rightarrow> Pos option" where
  "getLineIntersection p1 p2 p3 p4 =
     (let d = (px p1 - px p2) * (py p3 - py p4) - (py p1 - py p2) * (px p3 - px p4)
      in if \<bar>d\<bar> < 1 / 10 ^ 9 then None
         else let t = ((px p1 - px p3) * (py p3 - py p4) - (py p1 - py p3) * (px p3 - px p4)) / d
              in Some \<lparr>px = px p1 + t * (px p2 - px p1), py = py p1 + t * (py p2 - py p1)\<rparr>)"

definition rectanglesIntersect :: "'a Rect_scheme \<Rightarrow> 'b Rect_scheme \<Rightarrow> bool" where
  "rectanglesIntersect rect1 rect2 \<longleftrightarrow>
     rect_x rect1 < rect_x rect2 + width rect2 \<and>
     rect_x rect1 + width rect1 > rect_x rect2 \<and>
     rect_y rect1 < rect_y rect2 + height rect2 \<and>
     rect_y rect1 + height rect1 > rect_y rect2"

definition crossProduct :: "Point \<Rightarrow> Point \<Rightarrow> Point \<Rightarrow> real" where
  "crossProduct p2 p1 p = (px p2 - px p1) * (py p - py p1) - (py p2 - py p1) * (px p - px p1)"

text \<open>
  The inner loop of \<^verbatim>\<open>clipPolygonByPolygon\<close> for one clip edge: \<open>S\<close> is the vertex
  visited before, the list is what remains of \<^verbatim>\<open>inputList\<close>, and the last argument is
  \<^verbatim>\<open>outputList\<close>, to which the source pushes.
\<close>

fun clipEdge :: "Point \<Rightarrow> Point \<Rightarrow> Point \<Rightarrow> Point list \<Rightarrow> Point list \<Rightarrow> Point list" where
  "clipEdge clipEdgeP1 clipEdgeP2 S [] outputList = outputList"
| "clipEdge clipEdgeP1 clipEdgeP2 S (E # es) outputList =
     (let sInside = (crossProduct clipEdgeP2 clipEdgeP1 S \<ge> 0);
          eInside = (crossProduct clipEdgeP2 clipEdgeP1 E \<ge> 0)
      in clipEdge clipEdgeP1 clipEdgeP2 E es
           (if sInside \<and> eInside then outputList @ [E]
            else if sInside \<and> \<not> eInside then
              (case getLineIntersection S E clipEdgeP1 clipEdgeP2 of
                 None \<Rightarrow> outputList
               | Some q \<Rightarrow> outputList @ [mkPoint (- 1) (px q) (py q)])
            else if \<not> sInside \<and> eInside then
              (case getLineIntersection S E clipEdgeP1 clipEdgeP2 of
                 None \<Rightarrow> outputList @ [E]
               | Some q \<Rightarrow> outputList @ [mkPoint (- 1) (px q) (py q), E])
            else outputList))"

text \<open>
  The outer loop over the indices of the clip polygon.  An empty \<^verbatim>\<open>inputList\<close> leaves
  the loop with an empty result.
\<close>

fun clipLoop :: "Point list \<Rightarrow> nat list \<Rightarrow> Point list \<Rightarrow> Point list" where
  "clipLoop clipPolygon [] outputList = outputList"
| "clipLoop clipPolygon (i # is) outputList =
     (if outputList = [] then []
      else clipLoop clipPolygon is
             (clipEdge (clipPolygon ! i) (clipPolygon ! ((i + 1) mod length clipPolygon))
                (last outputList) outputList []))"

definition clipPolygonByPolygon :: "Point list \<Rightarrow> Point list \<Rightarrow> Point list" where
  "clipPolygonByPolygon subjectPolygon clipPolygon =
     clipLoop clipPolygon [0..<length clipPolygon] subjectPolygon"

section \<open>Strings, records and sorting of the JavaScript runtime\<close>

text \<open>
  A template literal prints an integer in decimal.  \<^verbatim>\<open>Array.prototype.indexOf\<close> returns
  \<open>-1\<close> for an absent element.
\<close>

definition digitChar :: "nat \<Rightarrow> char" where
  "digitChar d = ''0123456789'' ! d"

fun showNat :: "nat \<Rightarrow> string" where
  "showNat n = (if n < 10 then [digitChar n] else showNat (n div 10) @ [digitChar (n mod 10)])"

declare showNat.simps [simp del]

definition showInt :: "int \<Rightarrow> string" where
  "showInt i = (if i < 0 then CHR ''-'' # showNat (nat (- i)) else showNat (nat i))"

fun indexFrom :: "int \<Rightarrow> 'a list \<Rightarrow> 'a \<Rightarrow> int" where
  "indexFrom k [] a = - 1"
| "indexFrom k (b # bs) a = (if b = a then k else indexFrom (k + 1) bs a)"

definition indexOf :: "'a list \<Rightarrow> 'a \<Rightarrow> int" where
  "indexOf xs a = indexFrom 0 xs a"

text \<open>
  A \<^verbatim>\<open>Record<string, T>\<close> and a \<^verbatim>\<open>Map\<close> are association lists in insertion order;
  assigning to a key that is present keeps its place.  (The enumeration order that
  JavaScript gives to integer-like keys of an object is not modelled; no colour of the
  palette is such a key.)
\<close>

fun recordSet :: "('k \<times> 'v) list \<Rightarrow> 'k \<Rightarrow> 'v \<Rightarrow> ('k \<times> 'v) list" where
  "recordSet [] k v = [(k, v)]"
| "recordSet ((k', v') # r) k v = (if k' = k then (k, v) # r else (k', v') # recordSet r k v)"

text \<open>
  \<^verbatim>\<open>Array.prototype.sort\<close> with a comparator is stable.  It is modelled by insertion
  from the left: an element passes every earlier element that does not compare greater.
  For a consistent comparator every stable sort returns the same list.
\<close>

fun insertBy :: "('a \<Rightarrow> 'a \<Rightarrow> real) \<Rightarrow> 'a \<Rightarrow> 'a list \<Rightarrow> 'a list" where
  "insertBy cmp a [] = [a]"
| "insertBy cmp a (b # bs) = (if cmp a b < 0 then a # b # bs else b # insertBy cmp a bs)"

definition sortBy :: "('a \<Rightarrow> 'a \<Rightarrow> real) \<Rightarrow> 'a list \<Rightarrow> 'a list" where
  "sortBy cmp xs = foldl (\<lambda>acc a. insertBy cmp a acc) [] xs"

definition mathRound :: "real \<Rightarrow> real" where
  "mathRound v = of_int \<lfloor>v + 1 / 2\<rfloor>"

section \<open>Helpers of App.tsx\<close>

definition isPolygonClockwise :: "Point list \<Rightarrow> bool" where
  "isPolygonClockwise polygon =
     (foldl (\<lambda>sum i.
               let p1 = polygon ! i; p2 = polygon ! ((i + 1) mod length polygon)
               in sum + (px p2 - px p1) * (py p2 + py p1))
        0 [0..<length polygon] > 0)"

definition arePointsCollinear :: "Point \<Rightarrow> Point \<Rightarrow> Point \<Rightarrow> real \<Rightarrow> bool" where
  "arePointsCollinear p1 p2 p3 epsilon =
     (let area = px p1 * (py p2 - py p3) + px p2 * (py p3 - py p1) + px p3 * (py p1 - py p2)
      in \<bar>area\<bar> < epsilon)"

definition isPointOnSegment :: "Point \<Rightarrow> Point \<Rightarrow> Point \<Rightarrow> real \<Rightarrow> bool" where
  "isPointOnSegment p a b epsilon \<longleftrightarrow>
     arePointsCollinear a b p epsilon \<and>
     min (px a) (px b) - epsilon \<le> px p \<and> px p \<le> max (px a) (px b) + epsilon \<and>
     min (py a) (py b) - epsilon \<le> py p \<and> py p \<le> max (py a) (py b) + epsilon"

text \<open>The segment is the two-element array of the source, given as its two points.\<close>

definition isSegmentOnTileBoundary :: "Point \<Rightarrow> Point \<Rightarrow> Tile \<Rightarrow> bool" where
  "isSegmentOnTileBoundary p1 p2 tile =
     (let x = rect_x tile; y = rect_y tile; w = width tile; h = height tile;
          tileEdges =
            [(mkPoint (- 1) x y, mkPoint (- 1) (x + w) y),
             (mkPoint (- 1) (x + w) y, mkPoint (- 1) (x + w) (y + h)),
             (mkPoint (- 1) (x + w) (y + h), mkPoint (- 1) x (y + h)),
             (mkPoint (- 1) x (y + h), mkPoint (- 1) x y)]
      in list_ex (\<lambda>(e1, e2). isPointOnSegment p1 e1 e2 (1 / 10 ^ 6)
                              \<and> isPointOnSegment p2 e1 e2 (1 / 10 ^ 6)) tileEdges)"

definition tilePolygon :: "Tile \<Rightarrow> Point list" where
  "tilePolygon tile =
     [mkPoint (- 1) (rect_x tile) (rect_y tile),
      mkPoint (- 2) (rect_x tile + width tile) (rect_y tile),
      mkPoint (- 3) (rect_x tile + width tile) (rect_y tile + height tile),
      mkPoint (- 4) (rect_x tile) (rect_y tile + height tile)]"

section \<open>Area statistics (calculateStatsForArea)\<close>

text \<open>
  The body of \<^verbatim>\<open>intersectingTiles.forEach\<close>: the state is the pair of
  \<^verbatim>\<open>totalUsedTileArea\<close> and \<^verbatim>\<open>tileAreaByColor\<close>.
\<close>

definition statsStep ::
  "Point list \<Rightarrow> real \<times> (string \<times> real) list \<Rightarrow> Tile \<Rightarrow> real \<times> (string \<times> real) list" where
  "statsStep areaPolygon st tile =
     (let intersection = clipPolygonByPolygon (tilePolygon tile) areaPolygon;
          intersectionArea = polygonArea intersection
      in if intersectionArea > 1 / 10 ^ 6
         then (fst st + intersectionArea,
               recordSet (snd st) (color tile)
                 ((case map_of (snd st) (color tile) of None \<Rightarrow> 0 | Some a \<Rightarrow> a)
                    + intersectionArea))
         else st)"

definition calculateStatsForArea :: "Area \<Rightarrow> Tile list \<Rightarrow> TileDimensions \<Rightarrow> Area" where
  "calculateStatsForArea area allTiles tileDims =
     (if \<not> isClosed area \<or> length (points area) < 3
      then area\<lparr>calculationResult := None\<rparr>
      else
        let areaPolygon =
              (if isPolygonClockwise (points area) then rev (points area) else points area);
            pArea = polygonArea areaPolygon;
            perimeter = polygonPerimeter areaPolygon;
            singleTileArea = dim_width tileDims * dim_height tileDims
        in if singleTileArea = 0
           then area\<lparr>calculationResult := Some
                  \<lparr>tileCount = 0, colorCount = 0, tileCountsByColor = [], cr_total = 0,
                   cr_polygonArea = pArea, cr_perimeter = perimeter\<rparr>\<rparr>
           else
             let intersectingTiles =
                   filter (\<lambda>tile. polygonIntersectsRectangle areaPolygon tile) allTiles;
                 st = foldl (statsStep areaPolygon) (0, []) intersectingTiles;
                 totalUsedTileArea = fst st;
                 tileAreaByColor = snd st;
                 finalTileCount = totalUsedTileArea / singleTileArea;
                 finalTileCountsByColor =
                   foldl (\<lambda>final (c, a). recordSet final c (a / singleTileArea)) []
                     tileAreaByColor;
                 colorCount = length finalTileCountsByColor
             in area\<lparr>calculationResult := Some
                  \<lparr>tileCount = finalTileCount, colorCount = colorCount,
                   tileCountsByColor = finalTileCountsByColor, cr_total = finalTileCount,
                   cr_polygonArea = pArea, cr_perimeter = perimeter\<rparr>\<rparr>)"





section \<open>Example documents\<close>

text \<open>
  The square room of 1000 by 1000 of the specification's scenarios, drawn in the winding
  that needs no normalisation and in the opposite one, and the tile of 500 by 500 at
  (800, 800).
\<close>

definition roomSquare :: Area where
  "roomSquare =
     \<lparr>area_id = 1, area_name = ''Area 1'',
      points = [mkPoint 1 0 0, mkPoint 2 1000 0, mkPoint 3 1000 1000, mkPoint 4 0 1000],
      walls = [\<lparr>wall_id = 11, p1Id = 1, p2Id = 2\<rparr>, \<lparr>wall_id = 12, p1Id = 2, p2Id = 3\<rparr>,
               \<lparr>wall_id = 13, p1Id = 3, p2Id = 4\<rparr>, \<lparr>wall_id = 14, p1Id = 4, p2Id = 1\<rparr>],
      area_color = ''#06b6d4'', isClosed = True, calculationResult = None, isVisible = True\<rparr>"

definition roomSquareCW :: Area where
  "roomSquareCW = roomSquare\<lparr>points := rev (points roomSquare)\<rparr>"

definition cornerTile :: Tile where
  "cornerTile =
     \<lparr>rect_x = 800, rect_y = 800, width = 500, height = 500,
      tile_id = 7, color = ''#ef4444'', number = Some ''0-1''\<rparr>"

section \<open>Tile renumbering (renumberTilesByColor)\<close>

text \<open>
  The first loop: a tile without a number is skipped; a colour seen for the first time
  gets an empty group; the tile is pushed to the group of its colour.
\<close>

definition groupStep :: "(string \<times> Tile list) list \<Rightarrow> Tile \<Rightarrow> (string \<times> Tile list) list" where
  "groupStep tilesByColor tile =
     (if number tile = None then tilesByColor
      else
        let r = (if map_of tilesByColor (color tile) = None
                 then recordSet tilesByColor (color tile) []
                 else tilesByColor)
        in recordSet r (color tile)
             ((case map_of r (color tile) of None \<Rightarrow> [] | Some g \<Rightarrow> g) @ [tile]))"

text \<open>The comparator \<^verbatim>\<open>(a, b) => a.y - b.y || a.x - b.x\<close>.\<close>

definition tileCompare :: "Tile \<Rightarrow> Tile \<Rightarrow> real" where
  "tileCompare a b =
     (if rect_y a - rect_y b \<noteq> 0 then rect_y a - rect_y b else rect_x a - rect_x b)"

definition renumberGroup :: "string \<Rightarrow> Tile list \<Rightarrow> Tile list" where
  "renumberGroup c g =
     (let colorPrefix = indexOf TILE_COLORS c;
          sortedTiles = sortBy tileCompare g
      in map (\<lambda>(tile, index).
                tile\<lparr>number := Some (showInt colorPrefix @ ''-'' @ showNat (index + 1))\<rparr>)
           (zip sortedTiles [0..<length sortedTiles]))"

definition renumberTilesByColor :: "Tile list \<Rightarrow> Tile list" where
  "renumberTilesByColor tiles =
     (let tilesByColor = foldl groupStep [] tiles;
          allRenumberedTiles =
            foldl (\<lambda>all (c, g). all @ renumberGroup c g) [] tilesByColor;
          renumberedMap = foldl (\<lambda>m t. m(tile_id t \<mapsto> t)) Map.empty allRenumberedTiles
      in map (\<lambda>t. case renumberedMap (tile_id t) of None \<Rightarrow> t | Some t' \<Rightarrow> t') tiles)"

section \<open>Cut decomposition (handleCut)\<close>

definition toLocal :: "Tile \<Rightarrow> Point \<Rightarrow> Point" where
  "toLocal tile p = p\<lparr>px := px p - rect_x tile, py := py p - rect_y tile\<rparr>"

definition toLocalSegmentPoint :: "Tile \<Rightarrow> Point \<Rightarrow> Point" where
  "toLocalSegmentPoint tile p =
     p\<lparr>pid := - 1, px := px p - rect_x tile, py := py p - rect_y tile\<rparr>"

definition fullTileOutline :: "Tile \<Rightarrow> Point list" where
  "fullTileOutline tile =
     [mkPoint (- 1) 0 0, mkPoint (- 1) (width tile) 0,
      mkPoint (- 1) (width tile) (height tile), mkPoint (- 1) 0 (height tile)]"

definition inPiecePolygonsOf :: "Area list \<Rightarrow> Tile \<Rightarrow> Point list list" where
  "inPiecePolygonsOf correctedAreas tile =
     foldl (\<lambda>inPiecePolygons area.
              let intersection = clipPolygonByPolygon (tilePolygon tile) (points area)
              in if polygonArea intersection > 1 / 10 ^ 6
                 then inPiecePolygons @ [intersection] else inPiecePolygons)
       [] correctedAreas"

definition cutSegmentsOf :: "Point list list \<Rightarrow> Tile \<Rightarrow> Point list list" where
  "cutSegmentsOf inPiecePolygons tile =
     foldl (\<lambda>cutSegments poly.
              foldl (\<lambda>segs i.
                       let p1 = poly ! i; p2 = poly ! ((i + 1) mod length poly)
                       in if \<not> isSegmentOnTileBoundary p1 p2 tile then segs @ [[p1, p2]]
                          else segs)
                cutSegments [0..<length poly])
       [] inPiecePolygons"

text \<open>
  The body of \<^verbatim>\<open>tiles.forEach\<close>: the pieces of one tile are pushed to
  \<^verbatim>\<open>allNewCutPieces\<close>.  An in-piece has no \<^verbatim>\<open>cutSegments\<close> field.
\<close>

definition cutTile :: "Area list \<Rightarrow> CutTilePiece list \<Rightarrow> Tile \<Rightarrow> CutTilePiece list" where
  "cutTile correctedAreas allNewCutPieces tile =
     (let inPiecePolygons = inPiecePolygonsOf correctedAreas tile;
          cutSegments = cutSegmentsOf inPiecePolygons tile;
          totalInPieceArea = foldl (\<lambda>sum p. sum + polygonArea p) 0 inPiecePolygons;
          originalTileArea = width tile * height tile
      in if totalInPieceArea < 1 / 10 ^ 6
         then allNewCutPieces @
           [\<lparr>piece_id = showInt (tile_id tile) @ ''-offcut'', originalTile = tile,
             polygons = [fullTileOutline tile], cutSegments = Some [],
             piece_x = rect_x tile, piece_y = rect_y tile,
             isOffcut = True, wastePercentage = 100\<rparr>]
         else
           let withInPieces =
                 foldl (\<lambda>pieces (poly, i). pieces @
                          [\<lparr>piece_id = showInt (tile_id tile) @ ''-in-'' @ showNat i,
                            originalTile = tile,
                            polygons = [map (toLocal tile) poly], cutSegments = None,
                            piece_x = rect_x tile, piece_y = rect_y tile,
                            isOffcut = False, wastePercentage = 0\<rparr>])
                   allNewCutPieces (zip inPiecePolygons [0..<length inPiecePolygons])
           in if originalTileArea - totalInPieceArea > 1 / 10 ^ 6
              then
                let outerPoly = fullTileOutline tile;
                    holePolys = map (map (toLocal tile)) inPiecePolygons;
                    wastePercentage =
                      (if originalTileArea > 0
                       then ((originalTileArea - totalInPieceArea) / originalTileArea) * 100
                       else 0)
                in withInPieces @
                  [\<lparr>piece_id = showInt (tile_id tile) @ ''-offcut'', originalTile = tile,
                    polygons = outerPoly # holePolys,
                    cutSegments = Some (map (map (toLocalSegmentPoint tile)) cutSegments),
                    piece_x = rect_x tile, piece_y = rect_y tile,
                    isOffcut = True, wastePercentage = wastePercentage\<rparr>]
              else withInPieces)"

text \<open>
  The candidates of a tile in the words of the specification: the tile rectangle clipped
  against every area, keeping each result whose area exceeds \<open>1e-6\<close>; and their summed area.
\<close>

definition inPieceCandidates :: "Area list \<Rightarrow> Tile \<Rightarrow> Point list list" where
  "inPieceCandidates correctedAreas tile =
     filter (\<lambda>poly. polygonArea poly > 1 / 10 ^ 6)
       (map (\<lambda>area. clipPolygonByPolygon (tilePolygon tile) (points area)) correctedAreas)"

definition insideArea :: "Area list \<Rightarrow> Tile \<Rightarrow> real" where
  "insideArea correctedAreas tile =
     sum_list (map polygonArea (inPieceCandidates correctedAreas tile))"

text \<open>
  The words of the specification for renumbering: the colour group of a colour is the
  list of numbered tiles of that colour in document order; the ordinal of a tile is its
  position in its sorted colour group, counted from 1; row-major order compares \<open>y\<close> and
  then \<open>x\<close>.
\<close>

definition colorGroup :: "Tile list \<Rightarrow> string \<Rightarrow> Tile list" where
  "colorGroup tiles c = filter (\<lambda>u. number u \<noteq> None \<and> color u = c) tiles"

definition ordinalOf :: "Tile list \<Rightarrow> Tile \<Rightarrow> nat" where
  "ordinalOf tiles t = nat (indexOf (sortBy tileCompare (colorGroup tiles (color t))) t) + 1"


text \<open>Two numbered tiles of the first palette colour that carry the same id.\<close>

definition twinTiles :: "Tile list" where
  "twinTiles =
     [\<lparr>rect_x = 0, rect_y = 0, width = 500, height = 500,
       tile_id = 1, color = ''#ef4444'', number = Some ''0''\<rparr>,
      \<lparr>rect_x = 0, rect_y = 500, width = 500, height = 500,
       tile_id = 1, color = ''#ef4444'', number = Some ''0''\<rparr>]"


section \<open>Snap resolver (components/Canvas.tsx)\<close>

datatype Tool = POINTER | WALL | MOVE | ERASE | PAN | FIELD | TILE | PLACE_FIELD | FILL | CUT

datatype SnapType = Vertex | Midpoint | Intersection | Grid | Extension | NoSnap

datatype LineType = Horizontal | Vertical | ExtensionLine

record TrackingLine =
  line_type :: LineType
  line_p1 :: Pos
  line_p2 :: Pos
  sourceId :: int

record SnapResult =
  snap_pos :: Pos
  snap_type :: SnapType

text \<open>The local variable \<^verbatim>\<open>bestSnap\<close>; the distance \<open>None\<close> stands for \<^verbatim>\<open>Infinity\<close>.\<close>

record BestSnap =
  best_pos :: Pos
  best_dist :: "real option"
  best_type :: SnapType

text \<open>
  The props and state of the canvas that \<^verbatim>\<open>getSnappedPos\<close> reads: the active area (or
  null), the tool, the two polar increments (or null), the visible areas, the tile
  dimensions, \<^verbatim>\<open>view.zoom\<close>, the tracking guides and the three snap modes.
\<close>

record CanvasState =
  activeArea :: "Area option"
  activeTool :: Tool
  activeAngleSnap :: "real option"
  activeLengthSnap :: "real option"
  visibleAreas :: "Area list"
  tileDimensions :: TileDimensions
  zoom :: real
  trackingLines :: "TrackingLine list"
  trackingIntersection :: "Pos option"
  snapGrid :: bool
  snapOsnap :: bool
  snapOtrack :: bool

definition SNAP_DISTANCE :: real where
  "SNAP_DISTANCE = 20"

definition posOf :: "'a Pos_scheme \<Rightarrow> Pos" where
  "posOf p = \<lparr>px = px p, py = py p\<rparr>"

text \<open>
  \<^verbatim>\<open>Math.atan2\<close> on real numbers (signed zeros are not modelled: the angle of a point
  on the negative \<open>x\<close> axis is \<open>pi\<close>).
\<close>

definition atan2 :: "real \<Rightarrow> real \<Rightarrow> real" where
  "atan2 y x =
     (if x > 0 then arctan (y / x)
      else if x < 0 then (if y \<ge> 0 then arctan (y / x) + pi else arctan (y / x) - pi)
      else if y > 0 then pi / 2
      else if y < 0 then - pi / 2
      else 0)"

text \<open>The two loops that wrap the relative angle, one after the other.\<close>

function wrapUp :: "real \<Rightarrow> real" where
  "wrapUp r = (if r \<le> - pi then wrapUp (r + 2 * pi) else r)"
  by pat_completeness auto
termination
proof (relation "measure (\<lambda>r. nat \<lceil>- r / (2 * pi)\<rceil>)")
  show "wf (measure (\<lambda>r. nat \<lceil>- r / (2 * pi)\<rceil>))" by simp
next
  fix r :: real
  assume le: "r \<le> - pi"
  have p: "0 < 2 * pi" by simp
  have "- (r + 2 * pi) / (2 * pi) = - r / (2 * pi) - 1"
    using p by (simp add: field_simps)
  then have c: "\<lceil>- (r + 2 * pi) / (2 * pi)\<rceil> = \<lceil>- r / (2 * pi)\<rceil> - 1"
    by (simp only: ceiling_diff_one)
  have "0 < - r" using le pi_gt_zero by linarith
  then have "0 < - r / (2 * pi)" using p by (rule divide_pos_pos)
  then have "0 < \<lceil>- r / (2 * pi)\<rceil>" by (rule zero_less_ceiling [THEN iffD2])
  then have "nat (\<lceil>- r / (2 * pi)\<rceil> - 1) < nat \<lceil>- r / (2 * pi)\<rceil>" by linarith
  then show "(r + 2 * pi, r) \<in> measure (\<lambda>r. nat \<lceil>- r / (2 * pi)\<rceil>)"
    by (simp only: in_measure c)
qed

function wrapDown :: "real \<Rightarrow> real" where
  "wrapDown r = (if r > pi then wrapDown (r - 2 * pi) else r)"
  by pat_completeness auto
termination
proof (relation "measure (\<lambda>r. nat \<lceil>r / (2 * pi)\<rceil>)")
  show "wf (measure (\<lambda>r. nat \<lceil>r / (2 * pi)\<rceil>))" by simp
next
  fix r :: real
  assume gt: "pi < r"
  have p: "0 < 2 * pi" by simp
  have "(r - 2 * pi) / (2 * pi) = r / (2 * pi) - 1"
    using p by (simp add: field_simps)
  then have c: "\<lceil>(r - 2 * pi) / (2 * pi)\<rceil> = \<lceil>r / (2 * pi)\<rceil> - 1"
    by (simp only: ceiling_diff_one)
  have "0 < r" using gt pi_gt_zero by linarith
  then have "0 < r / (2 * pi)" using p by (rule divide_pos_pos)
  then have "0 < \<lceil>r / (2 * pi)\<rceil>" by (rule zero_less_ceiling [THEN iffD2])
  then have "nat (\<lceil>r / (2 * pi)\<rceil> - 1) < nat \<lceil>r / (2 * pi)\<rceil>" by linarith
  then show "(r - 2 * pi, r) \<in> measure (\<lambda>r. nat \<lceil>r / (2 * pi)\<rceil>)"
    by (simp only: in_measure c)
qed

declare wrapUp.simps [simp del] wrapDown.simps [simp del]

definition wrapAngle :: "real \<Rightarrow> real" where
  "wrapAngle r = wrapDown (wrapUp r)"

text \<open>The polar branch; \<open>pts\<close> are the points of the active area, not empty.\<close>

definition polarSnap :: "CanvasState \<Rightarrow> Point list \<Rightarrow> Pos \<Rightarrow> SnapResult" where
  "polarSnap st pts pos =
     (let lastPoint = last pts;
          dx = px pos - px lastPoint;
          dy = py pos - py lastPoint;
          rawAngleRad = atan2 dy dx;
          rawDist = sqrt (dx * dx + dy * dy);
          finalAngleRad =
            (case activeAngleSnap st of
               None \<Rightarrow> rawAngleRad
             | Some angleSnap \<Rightarrow>
                 let snapAngleRad = angleSnap * (pi / 180);
                     baseAngleRad =
                       (if length pts \<ge> 2
                        then let secondLastPoint = pts ! (length pts - 2)
                             in atan2 (py lastPoint - py secondLastPoint)
                                  (px lastPoint - px secondLastPoint)
                        else 0);
                     rawRelativeAngleRad = wrapAngle (rawAngleRad - baseAngleRad);
                     snappedRelativeAngleRad =
                       mathRound (rawRelativeAngleRad / snapAngleRad) * snapAngleRad
                 in baseAngleRad + snappedRelativeAngleRad);
          finalDist =
            (case activeLengthSnap st of
               None \<Rightarrow> rawDist
             | Some lengthSnap \<Rightarrow>
                 if lengthSnap > 0 then mathRound (rawDist / lengthSnap) * lengthSnap
                 else rawDist)
      in if finalDist = 0 then \<lparr>snap_pos = posOf lastPoint, snap_type = Vertex\<rparr>
         else \<lparr>snap_pos = \<lparr>px = px lastPoint + finalDist * cos finalAngleRad,
                            py = py lastPoint + finalDist * sin finalAngleRad\<rparr>,
               snap_type = Extension\<rparr>)"

text \<open>
  One test of a candidate in the ordinary branch:
  \<^verbatim>\<open>if (d < snapRadius && d < bestSnap.dist) bestSnap = {pos: p, dist: d, type}\<close>.
\<close>

definition considerCandidate :: "real \<Rightarrow> Pos \<Rightarrow> SnapType \<Rightarrow> BestSnap \<Rightarrow> Pos \<Rightarrow> BestSnap" where
  "considerCandidate snapRadius pos ty bestSnap p =
     (let d = distance pos p
      in if d < snapRadius \<and> (case best_dist bestSnap of None \<Rightarrow> True | Some b \<Rightarrow> d < b)
         then \<lparr>best_pos = p, best_dist = Some d, best_type = ty\<rparr>
         else bestSnap)"

text \<open>The midpoint of a wall, when both of its end points are found among the points.\<close>

definition wallMidpoint :: "Wall \<times> Point list \<Rightarrow> Pos option" where
  "wallMidpoint wp =
     (case (find (\<lambda>p. pid p = p1Id (fst wp)) (snd wp),
            find (\<lambda>p. pid p = p2Id (fst wp)) (snd wp)) of
        (Some p1, Some p2) \<Rightarrow> Some \<lparr>px = (px p1 + px p2) / 2, py = (py p1 + py p2) / 2\<rparr>
      | _ \<Rightarrow> None)"

definition midStep :: "real \<Rightarrow> Pos \<Rightarrow> BestSnap \<Rightarrow> Wall \<times> Point list \<Rightarrow> BestSnap" where
  "midStep snapRadius pos bestSnap wp =
     (case wallMidpoint wp of
        None \<Rightarrow> bestSnap
      | Some mid \<Rightarrow> considerCandidate snapRadius pos Midpoint bestSnap mid)"

definition allWallsOf :: "Area list \<Rightarrow> (Wall \<times> Point list) list" where
  "allWallsOf areas = concat (map (\<lambda>a. map (\<lambda>w. (w, points a)) (walls a)) areas)"

text \<open>
  The loop over the tracking lines: the state is \<^verbatim>\<open>bestLineSnapPos\<close> and
  \<^verbatim>\<open>minSnapDist\<close>.
\<close>

definition lineStep :: "Pos \<Rightarrow> Pos option \<times> real \<Rightarrow> TrackingLine \<Rightarrow> Pos option \<times> real" where
  "lineStep pos acc line =
     (let p1 = line_p1 line; p2 = line_p2 line;
          dx = px p2 - px p1; dy = py p2 - py p1
      in if dx = 0 \<and> dy = 0 then acc
         else
           let t = ((px pos - px p1) * dx + (py pos - py p1) * dy) / (dx * dx + dy * dy);
               snapped = \<lparr>px = px p1 + t * dx, py = py p1 + t * dy\<rparr>;
               dist = distance pos snapped
           in if dist < snd acc then (Some snapped, dist) else acc)"

definition ordinarySnap :: "CanvasState \<Rightarrow> Pos \<Rightarrow> SnapResult" where
  "ordinarySnap st pos =
     (let snapRadius = SNAP_DISTANCE / zoom st;
          bestSnap0 = \<lparr>best_pos = pos, best_dist = None, best_type = NoSnap\<rparr>;
          bestSnap1 =
            (case trackingIntersection st of
               None \<Rightarrow> bestSnap0
             | Some q \<Rightarrow>
                 if snapOtrack st \<and> distance pos q < snapRadius
                 then \<lparr>best_pos = q, best_dist = Some (distance pos q),
                       best_type = Intersection\<rparr>
                 else bestSnap0);
          bestSnap =
            (if snapOsnap st
             then
               let allPoints = concat (map points (visibleAreas st));
                   b = foldl (\<lambda>b p. considerCandidate snapRadius pos Vertex b (posOf p))
                         bestSnap1 allPoints;
                   allWalls = allWallsOf (visibleAreas st)
               in foldl (midStep snapRadius pos) b allWalls
             else bestSnap1)
      in if best_type bestSnap \<in> {Intersection, Vertex, Midpoint}
         then \<lparr>snap_pos = best_pos bestSnap, snap_type = best_type bestSnap\<rparr>
         else
           case (if snapOtrack st \<and> trackingLines st \<noteq> []
                 then fst (foldl (lineStep pos) (None, snapRadius) (trackingLines st))
                 else None) of
             Some bestLineSnapPos \<Rightarrow> \<lparr>snap_pos = bestLineSnapPos, snap_type = Extension\<rparr>
           | None \<Rightarrow>
               if snapGrid st
               then \<lparr>snap_pos =
                       \<lparr>px = mathRound (px pos / dim_width (tileDimensions st))
                               * dim_width (tileDimensions st),
                        py = mathRound (py pos / dim_height (tileDimensions st))
                               * dim_height (tileDimensions st)\<rparr>,
                     snap_type = Grid\<rparr>
               else \<lparr>snap_pos = pos, snap_type = NoSnap\<rparr>)"

text \<open>The guard of the polar branch.\<close>

definition polarActive :: "CanvasState \<Rightarrow> bool" where
  "polarActive st \<longleftrightarrow>
     activeTool st = WALL
     \<and> (case activeArea st of None \<Rightarrow> [] | Some a \<Rightarrow> points a) \<noteq> []
     \<and> (activeAngleSnap st \<noteq> None \<or> activeLengthSnap st \<noteq> None)"

definition getSnappedPos :: "CanvasState \<Rightarrow> Pos \<Rightarrow> SnapResult" where
  "getSnappedPos st pos =
     (let pts = (case activeArea st of None \<Rightarrow> [] | Some a \<Rightarrow> points a)
      in if activeTool st = WALL \<and> pts \<noteq> []
            \<and> (activeAngleSnap st \<noteq> None \<or> activeLengthSnap st \<noteq> None)
         then polarSnap st pts pos
         else ordinarySnap st pos)"

text \<open>
  The candidates of the ordinary branch in the order in which the source tests them:
  the intersection of the tracking guides (with object tracking), then every vertex and
  then every wall midpoint of the visible areas (with object snap).
\<close>

definition snapCandidates :: "CanvasState \<Rightarrow> (Pos \<times> SnapType) list" where
  "snapCandidates st =
     (case trackingIntersection st of
        None \<Rightarrow> []
      | Some q \<Rightarrow> if snapOtrack st then [(q, Intersection)] else [])
     @ (if snapOsnap st
        then map (\<lambda>p. (posOf p, Vertex)) (concat (map points (visibleAreas st)))
             @ map (\<lambda>m. (m, Midpoint)) (List.map_filter wallMidpoint (allWallsOf (visibleAreas st)))
        else [])"

definition referenceDirection :: "Point list \<Rightarrow> real" where
  "referenceDirection pts =
     (if length pts \<ge> 2
      then atan2 (py (last pts) - py (pts ! (length pts - 2)))
             (px (last pts) - px (pts ! (length pts - 2)))
      else 0)"

text \<open>
  Example states.  A segment from (0, 0) to (100, 0) has been drawn; in the first state the
  wall tool is active with an angle increment of 15 degrees and a length increment of 100,
  in the second the move tool is active with the same increments.  In the third state the
  wall tool is active without polar snap, the zoom is 0.1, all snap modes are on, and the
  tracking guides are the horizontal and the vertical line through the point (0, 0), which
  intersect there.
\<close>

definition drawnArea :: Area where
  "drawnArea =
     \<lparr>area_id = 2, area_name = ''Area 2'',
      points = [mkPoint 21 0 0, mkPoint 22 100 0],
      walls = [\<lparr>wall_id = 31, p1Id = 21, p2Id = 22\<rparr>],
      area_color = ''#f59e0b'', isClosed = False, calculationResult = None, isVisible = True\<rparr>"

definition polarState :: CanvasState where
  "polarState =
     \<lparr>activeArea = Some drawnArea, activeTool = WALL,
      activeAngleSnap = Some 15, activeLengthSnap = Some 100,
      visibleAreas = [drawnArea], tileDimensions = \<lparr>dim_width = 465, dim_height = 465\<rparr>,
      zoom = 1, trackingLines = [], trackingIntersection = None,
      snapGrid = False, snapOsnap = False, snapOtrack = False\<rparr>"

definition moveState :: CanvasState where
  "moveState = polarState\<lparr>activeTool := MOVE\<rparr>"

definition trackingState :: CanvasState where
  "trackingState =
     \<lparr>activeArea = Some drawnArea, activeTool = WALL,
      activeAngleSnap = None, activeLengthSnap = None,
      visibleAreas = [drawnArea], tileDimensions = \<lparr>dim_width = 465, dim_height = 465\<rparr>,
      zoom = 1 / 10,
      trackingLines =
        [\<lparr>line_type = Horizontal, line_p1 = \<lparr>px = 0, py = 0\<rparr>, line_p2 = \<lparr>px = 1, py = 0\<rparr>,
          sourceId = 21\<rparr>,
         \<lparr>line_type = Vertical, line_p1 = \<lparr>px = 0, py = 0\<rparr>, line_p2 = \<lparr>px = 0, py = 1\<rparr>,
          sourceId = 21\<rparr>],
      trackingIntersection = Some \<lparr>px = 0, py = 0\<rparr>,
      snapGrid = True, snapOsnap = True, snapOtrack = True\<rparr>"

text \<open>
  The test of a candidate given with its type, and the invariant of the search: the
  best distance so far, if any, is greater than the distance \<open>dc\<close> of the eventual winner.
\<close>

definition considerPair :: "real \<Rightarrow> Pos \<Rightarrow> BestSnap \<Rightarrow> Pos \<times> SnapType \<Rightarrow> BestSnap" where
  "considerPair r pos b ct = considerCandidate r pos (snd ct) b (fst ct)"

definition beaten :: "real \<Rightarrow> BestSnap \<Rightarrow> bool" where
  "beaten dc b = (case best_dist b of None \<Rightarrow> True | Some db \<Rightarrow> dc < db)"

section \<open>Offcut packing (handleCut, second half)\<close>

text \<open>
  \<^verbatim>\<open>String.prototype.split\<close> with a one-character separator, and \<^verbatim>\<open>parseInt\<close> without
  a radix: leading white space (the ASCII white space characters) is skipped, a sign is
  read, the prefix \<^verbatim>\<open>0x\<close> selects radix 16, and the longest prefix of digits is the
  value; the result \<open>None\<close> stands for \<^verbatim>\<open>NaN\<close>.
\<close>

fun splitOn :: "char \<Rightarrow> string \<Rightarrow> string list" where
  "splitOn sep [] = [[]]"
| "splitOn sep (c # cs) =
     (if c = sep then [] # splitOn sep cs
      else (case splitOn sep cs of [] \<Rightarrow> [[c]] | w # ws \<Rightarrow> (c # w) # ws))"

definition isStrWhiteSpace :: "char \<Rightarrow> bool" where
  "isStrWhiteSpace c \<longleftrightarrow> c \<in> set [CHR 0x09, CHR 0x0A, CHR 0x0B, CHR 0x0C, CHR 0x0D, CHR 0x20]"

definition digitOf :: "char \<Rightarrow> nat option" where
  "digitOf c =
     (let n = (of_char c :: nat)
      in if 48 \<le> n \<and> n \<le> 57 then Some (n - 48)
         else if 97 \<le> n \<and> n \<le> 122 then Some (n - 87)
         else if 65 \<le> n \<and> n \<le> 90 then Some (n - 55)
         else None)"

fun radixDigits :: "nat \<Rightarrow> string \<Rightarrow> nat list" where
  "radixDigits R [] = []"
| "radixDigits R (c # cs) =
     (case digitOf c of
        None \<Rightarrow> []
      | Some d \<Rightarrow> if d < R then d # radixDigits R cs else [])"

definition parseInt :: "string \<Rightarrow> real option" where
  "parseInt s =
     (let S = dropWhile isStrWhiteSpace s;
          sign = (if S \<noteq> [] \<and> hd S = CHR ''-'' then - 1 else 1 :: real);
          S1 = (if S \<noteq> [] \<and> (hd S = CHR ''+'' \<or> hd S = CHR ''-'') then tl S else S);
          hex = (take 2 S1 = ''0x'' \<or> take 2 S1 = ''0X'');
          R = (if hex then 16 else 10);
          Z = radixDigits R (if hex then drop 2 S1 else S1)
      in if Z = [] then None
         else Some (sign * real (foldl (\<lambda>acc d. acc * R + d) 0 Z)))"

text \<open>
  The sort key \<^verbatim>\<open>parseInt((tile.number || '0-0').split('-')[1])\<close>; an absent second
  part is \<^verbatim>\<open>undefined\<close>, which parses to \<^verbatim>\<open>NaN\<close>.
\<close>

definition ordinalKey :: "Tile \<Rightarrow> real option" where
  "ordinalKey t =
     (let s = (case number t of None \<Rightarrow> ''0-0'' | Some n \<Rightarrow> if n = [] then ''0-0'' else n);
          parts = splitOn CHR ''-'' s
      in if 1 < length parts then parseInt (parts ! 1) else None)"

text \<open>
  The comparator \<^verbatim>\<open>numA - numB\<close> of the pieces of a row; a result \<^verbatim>\<open>NaN\<close> counts as 0 in
  \<^verbatim>\<open>Array.prototype.sort\<close>.  The pieces of \<^verbatim>\<open>allNewCutPieces\<close> are objects that the
  colour groups share with that array and that the layout assigns to; a reference to a
  piece is its index in the array, and the array is the store.
\<close>

definition pieceCompare :: "CutTilePiece list \<Rightarrow> nat \<Rightarrow> nat \<Rightarrow> real" where
  "pieceCompare store a b =
     (case (ordinalKey (originalTile (store ! a)), ordinalKey (originalTile (store ! b))) of
        (Some numA, Some numB) \<Rightarrow> numA - numB
      | _ \<Rightarrow> 0)"

definition paletteCompare :: "string \<Rightarrow> string \<Rightarrow> real" where
  "paletteCompare a b = of_int (indexOf TILE_COLORS a) - of_int (indexOf TILE_COLORS b)"

definition groupOffcutStep ::
  "CutTilePiece list \<Rightarrow> (string \<times> nat list) list \<Rightarrow> nat \<Rightarrow> (string \<times> nat list) list" where
  "groupOffcutStep store m p =
     (let c = color (originalTile (store ! p));
          m' = (if map_of m c = None then recordSet m c [] else m)
      in recordSet m' c ((case map_of m' c of None \<Rightarrow> [] | Some g \<Rightarrow> g) @ [p]))"

definition offcutPiecesByColor :: "CutTilePiece list \<Rightarrow> (string \<times> nat list) list" where
  "offcutPiecesByColor store =
     foldl (groupOffcutStep store) [] (filter (\<lambda>p. isOffcut (store ! p)) [0..<length store])"

text \<open>The inner loop \<^verbatim>\<open>pieces.forEach\<close> and the outer loop \<^verbatim>\<open>sortedColors.forEach\<close>.\<close>

fun placeRow :: "real \<Rightarrow> real \<Rightarrow> real \<Rightarrow> nat list \<Rightarrow> CutTilePiece list \<Rightarrow> CutTilePiece list" where
  "placeRow PADDING currentY currentX [] store = store"
| "placeRow PADDING currentY currentX (p # ps) store =
     placeRow PADDING currentY (currentX + width (originalTile (store ! p)) + PADDING) ps
       (store[p := (store ! p)\<lparr>piece_x := currentX, piece_y := currentY\<rparr>])"

fun placeColors ::
  "real \<Rightarrow> real \<Rightarrow> (string \<times> nat list) list \<Rightarrow> real \<Rightarrow> string list
     \<Rightarrow> CutTilePiece list \<Rightarrow> CutTilePiece list" where
  "placeColors PADDING minX groups currentY [] store = store"
| "placeColors PADDING minX groups currentY (c # cs) store =
     (let pieces = (case map_of groups c of None \<Rightarrow> [] | Some g \<Rightarrow> g);
          maxHeightInRow = foldl max 0 (map (\<lambda>p. height (originalTile (store ! p))) pieces);
          sorted = sortBy (pieceCompare store) pieces;
          store' = placeRow PADDING currentY minX sorted store
      in placeColors PADDING minX groups (currentY + maxHeightInRow + PADDING * 2) cs store')"

definition mathMin :: "real list \<Rightarrow> real" where
  "mathMin vs = foldl min (hd vs) (tl vs)"

definition mathMax :: "real list \<Rightarrow> real" where
  "mathMax vs = foldl max (hd vs) (tl vs)"

definition allPointsOf :: "Area list \<Rightarrow> Tile list \<Rightarrow> Point list" where
  "allPointsOf areas tiles =
     concat (map points areas)
     @ concat (map (\<lambda>t. [mkPoint (- 1) (rect_x t) (rect_y t),
                           mkPoint (- 1) (rect_x t + width t) (rect_y t + height t)]) tiles)"

definition layoutMinX :: "Area list \<Rightarrow> Tile list \<Rightarrow> real" where
  "layoutMinX areas tiles =
     (let allPoints = allPointsOf areas tiles
      in if allPoints \<noteq> [] then mathMin (map px allPoints) else 0)"

definition layoutMaxY :: "Area list \<Rightarrow> Tile list \<Rightarrow> real" where
  "layoutMaxY areas tiles =
     (let allPoints = allPointsOf areas tiles
      in if allPoints \<noteq> [] then mathMax (map py allPoints) else 0)"

text \<open>
  What \<^verbatim>\<open>handleCut\<close> does: it alerts, or it opens the prompt for the deletion of waste
  with all pieces and the ids of the fully wasted ones, or it sets the cut pieces.
\<close>

datatype CutOutcome =
    Alerted
  | WasteDeletionPrompt "CutTilePiece list" "string list"
  | CutPiecesSet "CutTilePiece list"

definition correctedAreasOf :: "Area list \<Rightarrow> Area list" where
  "correctedAreasOf closedAreas =
     map (\<lambda>area. if isPolygonClockwise (points area)
                  then area\<lparr>points := rev (points area)\<rparr> else area) closedAreas"

definition handleCut :: "Area list \<Rightarrow> Tile list \<Rightarrow> TileDimensions \<Rightarrow> CutOutcome" where
  "handleCut areas tiles tileDims =
     (let closedAreas = filter (\<lambda>a. isClosed a \<and> isVisible a) areas
      in if closedAreas = [] \<or> tiles = [] then Alerted
         else
           let correctedAreas = correctedAreasOf closedAreas;
               allNewCutPieces = foldl (cutTile correctedAreas) [] tiles;
               groups = offcutPiecesByColor allNewCutPieces;
               minX = layoutMinX areas tiles;
               maxY = layoutMaxY areas tiles;
               PADDING = dim_width tileDims / 2;
               currentY = maxY + PADDING * 3;
               sortedColors = sortBy paletteCompare (map fst groups);
               placed = placeColors PADDING minX groups currentY sortedColors allNewCutPieces;
               fullyWastedPieces =
                 filter (\<lambda>p. isOffcut p \<and> wastePercentage p \<ge> 999 / 10) placed
           in if fullyWastedPieces \<noteq> []
              then WasteDeletionPrompt placed (map piece_id fullyWastedPieces)
              else CutPiecesSet placed)"

text \<open>
  The layout in the words of the specification.  The pieces before the layout are those
  of all tiles; the colours of the offcuts, each once in the order of first occurrence,
  are sorted by palette index; the row of a colour holds its offcuts sorted by the sort
  key; the \<open>x\<close> positions of a row start at the left edge and advance by the width of the
  piece's tile plus the padding; the \<open>y\<close> positions of the rows start at a first value and
  advance by the tallest tile of the row (at least 0) plus twice the padding.
\<close>

definition piecesBeforeLayout :: "Area list \<Rightarrow> Tile list \<Rightarrow> CutTilePiece list" where
  "piecesBeforeLayout areas tiles =
     foldl (cutTile (correctedAreasOf (filter (\<lambda>a. isClosed a \<and> isVisible a) areas))) [] tiles"

definition offcutColors :: "CutTilePiece list \<Rightarrow> string list" where
  "offcutColors store =
     foldl (\<lambda>ks k. if k \<in> set ks then ks else ks @ [k]) []
       (map (\<lambda>p. color (originalTile p)) (filter isOffcut store))"

definition offcutIndices :: "CutTilePiece list \<Rightarrow> string \<Rightarrow> nat list" where
  "offcutIndices store c =
     filter (\<lambda>p. isOffcut (store ! p) \<and> color (originalTile (store ! p)) = c)
       [0..<length store]"

definition rowOf :: "CutTilePiece list \<Rightarrow> string \<Rightarrow> nat list" where
  "rowOf store c = sortBy (pieceCompare store) (offcutIndices store c)"

definition offcutRows :: "CutTilePiece list \<Rightarrow> nat list list" where
  "offcutRows store = map (rowOf store) (sortBy paletteCompare (offcutColors store))"

fun rowXs :: "real \<Rightarrow> real \<Rightarrow> real list \<Rightarrow> real list" where
  "rowXs pad x [] = []"
| "rowXs pad x (w # ws) = x # rowXs pad (x + w + pad) ws"

fun rowYs :: "real \<Rightarrow> real \<Rightarrow> real list \<Rightarrow> real list" where
  "rowYs pad y [] = []"
| "rowYs pad y (h # hs) = y # rowYs pad (y + h + 2 * pad) hs"

definition tallestIn :: "CutTilePiece list \<Rightarrow> nat list \<Rightarrow> real" where
  "tallestIn store row = foldl max 0 (map (\<lambda>p. height (originalTile (store ! p))) row)"

definition widthsIn :: "CutTilePiece list \<Rightarrow> nat list \<Rightarrow> real list" where
  "widthsIn store row = map (\<lambda>p. width (originalTile (store ! p))) row"

definition ordinalNumber :: "Tile \<Rightarrow> real" where
  "ordinalNumber t = (case ordinalKey t of None \<Rightarrow> 0 | Some v \<Rightarrow> v)"

definition piecesOf :: "CutOutcome \<Rightarrow> CutTilePiece list" where
  "piecesOf outcome =
     (case outcome of
        Alerted \<Rightarrow> []
      | WasteDeletionPrompt allPieces ids \<Rightarrow> allPieces
      | CutPiecesSet pieces \<Rightarrow> pieces)"

text \<open>Example tiles for the packing: two tiles outside the square room.\<close>

definition orangeTile :: Tile where
  "orangeTile =
     \<lparr>rect_x = - 500, rect_y = 0, width = 500, height = 500,
      tile_id = 8, color = ''#f97316'', number = Some ''1-1''\<rparr>"

definition farTile :: Tile where
  "farTile =
     \<lparr>rect_x = 2000, rect_y = 0, width = 500, height = 500,
      tile_id = 9, color = ''#ef4444'', number = Some ''0-2''\<rparr>"

definition packingTiles :: "Tile list" where
  "packingTiles = [orangeTile, farTile, cornerTile]"

definition tileDims500 :: TileDimensions where
  "tileDims500 = \<lparr>dim_width = 500, dim_height = 500\<rparr>"

section \<open>Auxiliary facts\<close>

lemma upt_4: "[0..<4] = [0, 1, 2, 3]"
  by (simp add: upt_rec)


subsection \<open>The shoelace sum of a reversed polygon\<close>






subsection \<open>Clipping when every vertex is inside\<close>




section \<open>Geometry kernel: area and clipping\<close>






section \<open>Area statistics\<close>

text \<open>
  Claim C4.  For an area that is not closed or has fewer than three points,
  \<^verbatim>\<open>calculateStatsForArea\<close> returns the area with \<^verbatim>\<open>calculationResult\<close> null, whatever
  the tiles and the tile dimensions are.
\<close>

theorem calculateStats_null:
  "\<not> isClosed area \<or> length (points area) < 3 \<Longrightarrow>
     calculateStatsForArea area allTiles tileDims = area\<lparr>calculationResult := None\<rparr>"
  by (simp add: calculateStatsForArea_def)

theorem calculateStats_null_witness:
  "calculateStatsForArea (roomSquare\<lparr>isClosed := False\<rparr>) [cornerTile]
       \<lparr>dim_width = 500, dim_height = 500\<rparr>
     = roomSquare\<lparr>isClosed := False, calculationResult := None\<rparr>
   \<and> calculateStatsForArea (roomSquare\<lparr>points := [mkPoint 1 0 0, mkPoint 2 1000 0]\<rparr>)
       [cornerTile] \<lparr>dim_width = 500, dim_height = 500\<rparr>
     = roomSquare\<lparr>points := [mkPoint 1 0 0, mkPoint 2 1000 0], calculationResult := None\<rparr>"
  using calculateStats_null [of "roomSquare\<lparr>isClosed := False\<rparr>" "[cornerTile]"
      "\<lparr>dim_width = 500, dim_height = 500\<rparr>"]
    calculateStats_null [of "roomSquare\<lparr>points := [mkPoint 1 0 0, mkPoint 2 1000 0]\<rparr>"
      "[cornerTile]" "\<lparr>dim_width = 500, dim_height = 500\<rparr>"]
  by simp

text \<open>
  Claim C5.  For a closed area with at least three points and tile dimensions whose product
  is 0, the result is not null: the tile count, the colour count and the total are 0, the
  map of counts by colour is empty, and the polygon area and the perimeter are those of
  the polygon after normalisation of its winding.  This branch performs no division.
\<close>

theorem calculateStats_zero_tile:
  assumes "isClosed area" and "3 \<le> length (points area)"
    and "dim_width tileDims * dim_height tileDims = 0"
  shows "calculationResult (calculateStatsForArea area allTiles tileDims) =
     Some \<lparr>tileCount = 0, colorCount = 0, tileCountsByColor = [], cr_total = 0,
       cr_polygonArea =
         polygonArea (if isPolygonClockwise (points area) then rev (points area)
                      else points area),
       cr_perimeter =
         polygonPerimeter (if isPolygonClockwise (points area) then rev (points area)
                           else points area)\<rparr>"
  using assms by (simp add: calculateStatsForArea_def Let_def)

theorem calculateStats_zero_tile_witness:
  "calculationResult (calculateStatsForArea roomSquare [cornerTile]
       \<lparr>dim_width = 0, dim_height = 465\<rparr>)
     = Some \<lparr>tileCount = 0, colorCount = 0, tileCountsByColor = [], cr_total = 0,
         cr_polygonArea = 1000000, cr_perimeter = 4000\<rparr>"
proof -
  have c: "isClosed roomSquare" and l: "3 \<le> length (points roomSquare)"
    by (simp_all add: roomSquare_def)
  have z: "dim_width \<lparr>dim_width = 0, dim_height = 465\<rparr>
      * dim_height \<lparr>dim_width = 0, dim_height = 465\<rparr> = 0"
    by simp
  have n: "\<not> isPolygonClockwise (points roomSquare)"
    by (simp add: isPolygonClockwise_def roomSquare_def mkPoint_def upt_4 Let_def)
  have a: "polygonArea (points roomSquare) = 1000000"
    by (simp add: polygonArea_def roomSquare_def mkPoint_def)
  have p: "polygonPerimeter (points roomSquare) = 4000"
    by (simp add: polygonPerimeter_def roomSquare_def mkPoint_def upt_4 distance_def)
  show ?thesis
    using calculateStats_zero_tile [OF c l z, of "[cornerTile]"] n a p by simp
qed

text \<open>
  Claim C10.  \<^verbatim>\<open>calculateStatsForArea\<close> changes no field of the area but
  \<^verbatim>\<open>calculationResult\<close>: the returned area is the input with that field replaced, so its
  points are the same list in the same order (also when the polygon is clockwise and a
  reversed copy is clipped against), and its id, name, walls, colour, closed flag and
  visibility flag are those of the input.
\<close>

theorem calculateStats_frame:
  "calculateStatsForArea area allTiles tileDims =
     area\<lparr>calculationResult := calculationResult (calculateStatsForArea area allTiles tileDims)\<rparr>
   \<and> points (calculateStatsForArea area allTiles tileDims) = points area
   \<and> area_id (calculateStatsForArea area allTiles tileDims) = area_id area
   \<and> area_name (calculateStatsForArea area allTiles tileDims) = area_name area
   \<and> walls (calculateStatsForArea area allTiles tileDims) = walls area
   \<and> area_color (calculateStatsForArea area allTiles tileDims) = area_color area
   \<and> isClosed (calculateStatsForArea area allTiles tileDims) = isClosed area
   \<and> isVisible (calculateStatsForArea area allTiles tileDims) = isVisible area"
  by (simp add: calculateStatsForArea_def Let_def)

theorem calculateStats_frame_witness:
  "isPolygonClockwise (points roomSquareCW)
   \<and> points (calculateStatsForArea roomSquareCW [cornerTile] \<lparr>dim_width = 500, dim_height = 500\<rparr>)
       = [mkPoint 4 0 1000, mkPoint 3 1000 1000, mkPoint 2 1000 0, mkPoint 1 0 0]
   \<and> area_id (calculateStatsForArea roomSquareCW [cornerTile] \<lparr>dim_width = 500, dim_height = 500\<rparr>)
       = 1"
proof -
  have "isPolygonClockwise (points roomSquareCW)"
    by (simp add: isPolygonClockwise_def roomSquareCW_def roomSquare_def mkPoint_def upt_4 Let_def)
  moreover have "points roomSquareCW
      = [mkPoint 4 0 1000, mkPoint 3 1000 1000, mkPoint 2 1000 0, mkPoint 1 0 0]"
    and "area_id roomSquareCW = 1"
    by (simp_all add: roomSquareCW_def roomSquare_def)
  ultimately show ?thesis
    using calculateStats_frame [of roomSquareCW "[cornerTile]"
        "\<lparr>dim_width = 500, dim_height = 500\<rparr>"]
    by simp
qed

section \<open>Cut decomposition of one tile\<close>

lemma foldl_filter_push:
  "foldl (\<lambda>acc a. let r = f a in if P r then acc @ [r] else acc) acc xs
     = acc @ filter P (map f xs)"
  by (induction xs arbitrary: acc) (simp_all add: Let_def)

lemma foldl_add_sum_list:
  "foldl (\<lambda>s p. s + g p) a xs = a + sum_list (map g xs)" for a :: real
  by (induction xs arbitrary: a) simp_all

lemma foldl_push_map:
  "foldl (\<lambda>ps x. ps @ [h x]) acc xs = acc @ map h xs"
  by (induction xs arbitrary: acc) simp_all

lemma foldl_push_map2:
  "foldl (\<lambda>ps (a, b). ps @ [h a b]) acc xs = acc @ map (\<lambda>(a, b). h a b) xs"
  by (induction xs arbitrary: acc) (simp_all add: case_prod_unfold)

lemma inPiecePolygonsOf_candidates:
  "inPiecePolygonsOf correctedAreas tile = inPieceCandidates correctedAreas tile"
  unfolding inPiecePolygonsOf_def inPieceCandidates_def
  using foldl_filter_push [of "\<lambda>area. clipPolygonByPolygon (tilePolygon tile) (points area)"
      "\<lambda>poly. polygonArea poly > 1 / 10 ^ 6" "[]" correctedAreas]
  by simp

lemma totalInPieceArea_insideArea:
  "foldl (\<lambda>sum p. sum + polygonArea p) 0 (inPieceCandidates correctedAreas tile)
     = insideArea correctedAreas tile"
  by (simp add: foldl_add_sum_list insideArea_def)

lemma scenario3_candidates:
  "inPieceCandidates [roomSquare] cornerTile =
     [[mkPoint (- 1) 800 1000, mkPoint (- 1) 800 800, mkPoint (- 1) 1000 800,
       mkPoint (- 1) 1000 1000]]"
  by (simp add: inPieceCandidates_def roomSquare_def cornerTile_def tilePolygon_def mkPoint_def
      clipPolygonByPolygon_def upt_4 crossProduct_def getLineIntersection_def Let_def
      polygonArea_def)

lemma scenario3_inside: "insideArea [roomSquare] cornerTile = 40000"
  by (simp add: insideArea_def scenario3_candidates) (simp add: polygonArea_def mkPoint_def)

lemma outside_candidates: "inPieceCandidates [roomSquare] (cornerTile\<lparr>rect_x := 2000\<rparr>) = []"
  by (simp add: inPieceCandidates_def roomSquare_def cornerTile_def tilePolygon_def mkPoint_def
      clipPolygonByPolygon_def upt_4 crossProduct_def getLineIntersection_def Let_def
      polygonArea_def)

lemma scenario3_segments:
  "cutSegmentsOf
     [[mkPoint (- 1) 800 1000, mkPoint (- 1) 800 800, mkPoint (- 1) 1000 800,
       mkPoint (- 1) 1000 1000]] cornerTile
   = [[mkPoint (- 1) 1000 800, mkPoint (- 1) 1000 1000],
      [mkPoint (- 1) 1000 1000, mkPoint (- 1) 800 1000]]"
  by (simp add: cutSegmentsOf_def cornerTile_def mkPoint_def upt_4 Let_def
      isSegmentOnTileBoundary_def isPointOnSegment_def arePointsCollinear_def)

text \<open>
  Claim C1.  For a tile processed by \<^verbatim>\<open>handleCut\<close>: when the summed area of its retained
  candidates is below \<open>1e-6\<close>, exactly one piece is pushed, an offcut whose only polygon
  is the full tile rectangle in local coordinates, with an empty list of cut segments and
  waste 100.  Otherwise one in-piece is pushed per retained candidate, in order, not an
  offcut and with waste 0, its polygon the candidate with the tile's origin subtracted from
  every vertex; and when the nominal area exceeds the inside area by more than \<open>1e-6\<close>,
  exactly one further piece, an offcut whose outer polygon is the full tile rectangle,
  whose holes are all candidates with the tile's origin subtracted from every vertex and
  whose waste is (nominal - inside) / nominal * 100; else nothing further.
\<close>

theorem cutTile_pieces:
  "(insideArea correctedAreas tile < 1 / 10 ^ 6 \<longrightarrow>
      cutTile correctedAreas allNewCutPieces tile = allNewCutPieces @
        [\<lparr>piece_id = showInt (tile_id tile) @ ''-offcut'', originalTile = tile,
          polygons = [[mkPoint (- 1) 0 0, mkPoint (- 1) (width tile) 0,
                       mkPoint (- 1) (width tile) (height tile), mkPoint (- 1) 0 (height tile)]],
          cutSegments = Some [],
          piece_x = rect_x tile, piece_y = rect_y tile,
          isOffcut = True, wastePercentage = 100\<rparr>])
   \<and> (\<not> insideArea correctedAreas tile < 1 / 10 ^ 6 \<longrightarrow>
      cutTile correctedAreas allNewCutPieces tile = allNewCutPieces @
        map (\<lambda>(poly, i).
               \<lparr>piece_id = showInt (tile_id tile) @ ''-in-'' @ showNat i, originalTile = tile,
                polygons = [map 
                  (\<lambda>p. \<lparr>px = px p - rect_x tile, py = py p - rect_y tile, pid = pid p\<rparr>) poly],
                cutSegments = None,
                piece_x = rect_x tile, piece_y = rect_y tile,
                isOffcut = False, wastePercentage = 0\<rparr>)
          (zip (inPieceCandidates correctedAreas tile)
             [0..<length (inPieceCandidates correctedAreas tile)]) @
        (if width tile * height tile - insideArea correctedAreas tile > 1 / 10 ^ 6
         then [\<lparr>piece_id = showInt (tile_id tile) @ ''-offcut'', originalTile = tile,
                 polygons =
                   [mkPoint (- 1) 0 0, mkPoint (- 1) (width tile) 0,
                    mkPoint (- 1) (width tile) (height tile), mkPoint (- 1) 0 (height tile)]
                   # map (map 
                  (\<lambda>p. \<lparr>px = px p - rect_x tile, py = py p - rect_y tile, pid = pid p\<rparr>))
                       (inPieceCandidates correctedAreas tile),
                 cutSegments = Some (map (map 
                  (\<lambda>p. \<lparr>px = px p - rect_x tile, py = py p - rect_y tile, pid = - 1\<rparr>))
                   (cutSegmentsOf (inPieceCandidates correctedAreas tile) tile)),
                 piece_x = rect_x tile, piece_y = rect_y tile,
                 isOffcut = True,
                 wastePercentage = (width tile * height tile - insideArea correctedAreas tile)
                     / (width tile * height tile) * 100\<rparr>]
         else []))"
proof (intro conjI impI)
  assume "insideArea correctedAreas tile < 1 / 10 ^ 6"
  then show "cutTile correctedAreas allNewCutPieces tile = allNewCutPieces @
        [\<lparr>piece_id = showInt (tile_id tile) @ ''-offcut'', originalTile = tile,
          polygons = [[mkPoint (- 1) 0 0, mkPoint (- 1) (width tile) 0,
                       mkPoint (- 1) (width tile) (height tile), mkPoint (- 1) 0 (height tile)]],
          cutSegments = Some [],
          piece_x = rect_x tile, piece_y = rect_y tile,
          isOffcut = True, wastePercentage = 100\<rparr>]"
    by (simp add: cutTile_def Let_def inPiecePolygonsOf_candidates totalInPieceArea_insideArea
        fullTileOutline_def)
next
  let ?in = "insideArea correctedAreas tile"
  let ?nom = "width tile * height tile"
  assume big: "\<not> ?in < 1 / 10 ^ 6"
  have pos: "?nom - ?in > 1 / 10 ^ 6 \<Longrightarrow> ?nom > 0"
    using big by simp
  note push = foldl_push_map2
  have loc: "toLocal tile = (\<lambda>p. \<lparr>px = px p - rect_x tile, py = py p - rect_y tile, pid = pid p\<rparr>)"
    by (rule ext) (simp add: toLocal_def)
  have seg: "toLocalSegmentPoint tile = (\<lambda>p. \<lparr>px = px p - rect_x tile, py = py p - rect_y tile, pid = - 1\<rparr>)"
    by (rule ext) (simp add: toLocalSegmentPoint_def)
  show "cutTile correctedAreas allNewCutPieces tile = allNewCutPieces @
        map (\<lambda>(poly, i).
               \<lparr>piece_id = showInt (tile_id tile) @ ''-in-'' @ showNat i, originalTile = tile,
                polygons = [map 
                  (\<lambda>p. \<lparr>px = px p - rect_x tile, py = py p - rect_y tile, pid = pid p\<rparr>) poly],
                cutSegments = None,
                piece_x = rect_x tile, piece_y = rect_y tile,
                isOffcut = False, wastePercentage = 0\<rparr>)
          (zip (inPieceCandidates correctedAreas tile)
             [0..<length (inPieceCandidates correctedAreas tile)]) @
        (if ?nom - ?in > 1 / 10 ^ 6
         then [\<lparr>piece_id = showInt (tile_id tile) @ ''-offcut'', originalTile = tile,
                 polygons =
                   [mkPoint (- 1) 0 0, mkPoint (- 1) (width tile) 0,
                    mkPoint (- 1) (width tile) (height tile), mkPoint (- 1) 0 (height tile)]
                   # map (map 
                  (\<lambda>p. \<lparr>px = px p - rect_x tile, py = py p - rect_y tile, pid = pid p\<rparr>))
                       (inPieceCandidates correctedAreas tile),
                 cutSegments = Some (map (map 
                  (\<lambda>p. \<lparr>px = px p - rect_x tile, py = py p - rect_y tile, pid = - 1\<rparr>))
                   (cutSegmentsOf (inPieceCandidates correctedAreas tile) tile)),
                 piece_x = rect_x tile, piece_y = rect_y tile,
                 isOffcut = True,
                 wastePercentage = (?nom - ?in) / ?nom * 100\<rparr>]
         else [])"
  proof (cases "?nom - ?in > 1 / 10 ^ 6")
    case True
    with pos have "?nom > 0" by simp
    with True big show ?thesis
      by (simp add: cutTile_def Let_def inPiecePolygonsOf_candidates
          totalInPieceArea_insideArea fullTileOutline_def push loc seg)
  next
    case False
    with big show ?thesis
      by (simp add: cutTile_def Let_def inPiecePolygonsOf_candidates
          totalInPieceArea_insideArea fullTileOutline_def push loc seg)
  qed
qed

text \<open>
  Scenario 3 of the specification: the tile at (800, 800) against the square room gives one
  in-piece of area 40000, whose polygon in the coordinates of the tile is the square from
  (0, 0) to (200, 200), and one offcut with waste 84, that square as its hole and the two
  sides of the square inside the tile as its cut segments; the same tile moved outside the
  room gives one offcut with waste 100.
\<close>

theorem cutTile_pieces_witness:
  "insideArea [roomSquare] cornerTile = 40000
   \<and> map polygonArea (inPieceCandidates [roomSquare] cornerTile) = [40000]
   \<and> map piece_id (cutTile [roomSquare] [] cornerTile) = [''7-in-0'', ''7-offcut'']
   \<and> map isOffcut (cutTile [roomSquare] [] cornerTile) = [False, True]
   \<and> map wastePercentage (cutTile [roomSquare] [] cornerTile) = [0, 84]
   \<and> map polygons (cutTile [roomSquare] [] cornerTile)
        = [[[mkPoint (- 1) 0 200, mkPoint (- 1) 0 0, mkPoint (- 1) 200 0, mkPoint (- 1) 200 200]],
           [[mkPoint (- 1) 0 0, mkPoint (- 1) 500 0, mkPoint (- 1) 500 500, mkPoint (- 1) 0 500],
            [mkPoint (- 1) 0 200, mkPoint (- 1) 0 0, mkPoint (- 1) 200 0, mkPoint (- 1) 200 200]]]
   \<and> map cutSegments (cutTile [roomSquare] [] cornerTile)
        = [None, Some [[mkPoint (- 1) 200 0, mkPoint (- 1) 200 200],
                       [mkPoint (- 1) 200 200, mkPoint (- 1) 0 200]]]
   \<and> map piece_x (cutTile [roomSquare] [] cornerTile) = [800, 800]
   \<and> map piece_y (cutTile [roomSquare] [] cornerTile) = [800, 800]
   \<and> map isOffcut (cutTile [roomSquare] [] (cornerTile\<lparr>rect_x := 2000\<rparr>)) = [True]
   \<and> map wastePercentage (cutTile [roomSquare] [] (cornerTile\<lparr>rect_x := 2000\<rparr>)) = [100]
   \<and> map polygons (cutTile [roomSquare] [] (cornerTile\<lparr>rect_x := 2000\<rparr>))
        = [[[mkPoint (- 1) 0 0, mkPoint (- 1) 500 0, mkPoint (- 1) 500 500, mkPoint (- 1) 0 500]]]
   \<and> map cutSegments (cutTile [roomSquare] [] (cornerTile\<lparr>rect_x := 2000\<rparr>)) = [Some []]"
proof -
  have a: "map polygonArea (inPieceCandidates [roomSquare] cornerTile) = [40000]"
    by (simp add: scenario3_candidates) (simp add: polygonArea_def mkPoint_def)
  have w: "width cornerTile * height cornerTile = 250000"
    by (simp add: cornerTile_def)
  have o: "insideArea [roomSquare] (cornerTile\<lparr>rect_x := 2000\<rparr>) = 0"
    by (simp add: insideArea_def outside_candidates)
  have d: "width (cornerTile\<lparr>rect_x := 2000\<rparr>) = 500" "height (cornerTile\<lparr>rect_x := 2000\<rparr>) = 500"
    by (simp_all add: cornerTile_def)
  have t: "tile_id cornerTile = 7" "rect_x cornerTile = 800" "rect_y cornerTile = 800"
    "width cornerTile = 500" "height cornerTile = 500"
    by (simp_all add: cornerTile_def)
  have s: "showInt 7 = ''7''" "showNat 0 = ''0''"
    by (simp_all add: showInt_def showNat.simps digitChar_def)
  have "map piece_id (cutTile [roomSquare] [] cornerTile) = [''7-in-0'', ''7-offcut'']"
    and "map isOffcut (cutTile [roomSquare] [] cornerTile) = [False, True]"
    and "map wastePercentage (cutTile [roomSquare] [] cornerTile) = [0, 84]"
    and "map polygons (cutTile [roomSquare] [] cornerTile)
        = [[[mkPoint (- 1) 0 200, mkPoint (- 1) 0 0, mkPoint (- 1) 200 0, mkPoint (- 1) 200 200]],
           [[mkPoint (- 1) 0 0, mkPoint (- 1) 500 0, mkPoint (- 1) 500 500, mkPoint (- 1) 0 500],
            [mkPoint (- 1) 0 200, mkPoint (- 1) 0 0, mkPoint (- 1) 200 0, mkPoint (- 1) 200 200]]]"
    and "map cutSegments (cutTile [roomSquare] [] cornerTile)
        = [None, Some [[mkPoint (- 1) 200 0, mkPoint (- 1) 200 200],
                       [mkPoint (- 1) 200 200, mkPoint (- 1) 0 200]]]"
    and "map piece_x (cutTile [roomSquare] [] cornerTile) = [800, 800]"
    and "map piece_y (cutTile [roomSquare] [] cornerTile) = [800, 800]"
    using cutTile_pieces [of "[roomSquare]" cornerTile "[]"]
    by (simp_all add: scenario3_inside scenario3_candidates
        scenario3_segments [unfolded mkPoint_def] w t s mkPoint_def)
  moreover have "map isOffcut (cutTile [roomSquare] [] (cornerTile\<lparr>rect_x := 2000\<rparr>)) = [True]"
    and "map wastePercentage (cutTile [roomSquare] [] (cornerTile\<lparr>rect_x := 2000\<rparr>)) = [100]"
    and "map polygons (cutTile [roomSquare] [] (cornerTile\<lparr>rect_x := 2000\<rparr>))
        = [[[mkPoint (- 1) 0 0, mkPoint (- 1) 500 0, mkPoint (- 1) 500 500, mkPoint (- 1) 0 500]]]"
    and "map cutSegments (cutTile [roomSquare] [] (cornerTile\<lparr>rect_x := 2000\<rparr>)) = [Some []]"
    using cutTile_pieces [of "[roomSquare]" "cornerTile\<lparr>rect_x := 2000\<rparr>" "[]"]
    by (simp_all add: o d)
  ultimately show ?thesis
    using a scenario3_inside by simp
qed

section \<open>Tile renumbering\<close>

subsection \<open>The stable sort\<close>

lemma mset_insertBy: "mset (insertBy cmp a xs) = add_mset a (mset xs)"
  by (induction xs) simp_all

lemma foldl_insertBy_mset:
  "mset (foldl (\<lambda>acc a. insertBy cmp a acc) acc xs) = mset acc + mset xs"
  by (induction xs arbitrary: acc) (simp_all add: mset_insertBy)

lemma mset_sortBy: "mset (sortBy cmp xs) = mset xs"
  by (simp add: sortBy_def foldl_insertBy_mset)

lemma set_sortBy: "set (sortBy cmp xs) = set xs"
  using mset_sortBy [of cmp xs] by (metis set_mset_mset)

lemma length_sortBy: "length (sortBy cmp xs) = length xs"
  using mset_sortBy [of cmp xs] by (metis size_mset)

lemma distinct_sortBy: "distinct (sortBy cmp xs) = distinct xs"
  using mset_sortBy [of cmp xs] by (metis mset_eq_imp_distinct_iff)







subsection \<open>Positions in a list\<close>





subsection \<open>Records in insertion order\<close>

lemma map_of_recordSet: "map_of (recordSet r k v) = (map_of r)(k \<mapsto> v)"
  by (induction r k v rule: recordSet.induct) auto



lemma keys_recordSet:
  "map fst (recordSet r k v) = (if k \<in> set (map fst r) then map fst r else map fst r @ [k])"
  by (induction r k v rule: recordSet.induct) auto

lemma distinct_keys_recordSet:
  "distinct (map fst r) \<Longrightarrow> distinct (map fst (recordSet r k v))"
  by (simp add: keys_recordSet)






lemma distinct_keys_groupStep:
  "distinct (map fst r) \<Longrightarrow> distinct (map fst (groupStep r t))"
  by (simp add: groupStep_def Let_def distinct_keys_recordSet)

lemma distinct_keys_foldl_groupStep:
  "distinct (map fst r) \<Longrightarrow> distinct (map fst (foldl groupStep r ts))"
  by (induction ts arbitrary: r) (simp_all add: distinct_keys_groupStep)













text \<open>
  Two numbered tiles of one colour with the same id, at (0, 0) and at (0, 500): the sorted
  colour group holds the tile at (0, 0) first, so the claim gives it the ordinal 1 and
  leaves it where it is; the function returns the tile at (0, 500) with the ordinal 2 in
  both places.
\<close>

theorem renumber_counterexample:
  "map tile_id twinTiles = [1, 1]
   \<and> map number twinTiles = [Some ''0'', Some ''0'']
   \<and> map color twinTiles = [''#ef4444'', ''#ef4444'']
   \<and> map rect_y (sortBy tileCompare (colorGroup twinTiles ''#ef4444'')) = [0, 500]
   \<and> ordinalOf twinTiles (twinTiles ! 0) = 1
   \<and> map number (renumberTilesByColor twinTiles) = [Some ''0-2'', Some ''0-2'']
   \<and> map rect_y (renumberTilesByColor twinTiles) = [500, 500]
   \<and> renumberTilesByColor twinTiles ! 0 \<noteq> (twinTiles ! 0)\<lparr>number := Some ''0-1''\<rparr>"
  by (simp add: twinTiles_def renumberTilesByColor_def groupStep_def
      renumberGroup_def sortBy_def tileCompare_def colorGroup_def ordinalOf_def indexOf_def
      TILE_COLORS_def showInt_def showNat.simps digitChar_def Let_def)

section \<open>Snap resolver: the ordinary branch\<close>

lemma considerPair_simp:
  "considerPair r pos b (c, ty) = considerCandidate r pos ty b c"
  by (simp add: considerPair_def)

lemma midStep_cases:
  "midStep r pos b w = (case wallMidpoint w of None \<Rightarrow> b | Some m \<Rightarrow> considerPair r pos b (m, Midpoint))"
  by (simp add: midStep_def considerPair_def split: option.splits)

lemma foldl_midStep:
  "foldl (midStep r pos) b ws
     = foldl (considerPair r pos) b (map (\<lambda>m. (m, Midpoint)) (List.map_filter wallMidpoint ws))"
proof (induction ws arbitrary: b)
  case Nil
  show ?case by (simp add: map_filter_simps)
next
  case (Cons w ws)
  show ?case
  proof (cases "wallMidpoint w")
    case None
    then have "midStep r pos b w = b" by (simp add: midStep_cases)
    moreover from None
    have "List.map_filter wallMidpoint (w # ws) = List.map_filter wallMidpoint ws"
      by (simp add: map_filter_simps)
    ultimately show ?thesis using Cons.IH [of b] by simp
  next
    case (Some m)
    then have "midStep r pos b w = considerPair r pos b (m, Midpoint)"
      by (simp add: midStep_cases)
    moreover from Some
    have "List.map_filter wallMidpoint (w # ws) = m # List.map_filter wallMidpoint ws"
      by (simp add: map_filter_simps)
    ultimately show ?thesis using Cons.IH [of "considerPair r pos b (m, Midpoint)"] by simp
  qed
qed

lemma foldl_vertices:
  "foldl (\<lambda>b p. considerCandidate r pos Vertex b (posOf p)) b ps
     = foldl (considerPair r pos) b (map (\<lambda>p. (posOf p, Vertex)) ps)"
proof (induction ps arbitrary: b)
  case Nil
  show ?case by simp
next
  case (Cons p ps)
  show ?case by (simp add: Cons.IH considerPair_simp)
qed

lemma consider_first:
  "considerPair r pos \<lparr>best_pos = pos, best_dist = None, best_type = NoSnap\<rparr> (q, ty)
     = (if distance pos q < r
        then \<lparr>best_pos = q, best_dist = Some (distance pos q), best_type = ty\<rparr>
        else \<lparr>best_pos = pos, best_dist = None, best_type = NoSnap\<rparr>)"
  by (simp add: considerPair_def considerCandidate_def Let_def)

lemma ordinary_best:
  "(let snapRadius = SNAP_DISTANCE / zoom st;
        bestSnap0 = \<lparr>best_pos = pos, best_dist = None, best_type = NoSnap\<rparr>;
        bestSnap1 =
            (case trackingIntersection st of
               None \<Rightarrow> bestSnap0
             | Some q \<Rightarrow>
                 if snapOtrack st \<and> distance pos q < snapRadius
                 then \<lparr>best_pos = q, best_dist = Some (distance pos q),
                       best_type = Intersection\<rparr>
                 else bestSnap0)
    in (if snapOsnap st
             then
               let allPoints = concat (map points (visibleAreas st));
                   b = foldl (\<lambda>b p. considerCandidate snapRadius pos Vertex b (posOf p))
                         bestSnap1 allPoints;
                   allWalls = allWallsOf (visibleAreas st)
               in foldl (midStep snapRadius pos) b allWalls
             else bestSnap1))
   = foldl (considerPair (SNAP_DISTANCE / zoom st) pos)
       \<lparr>best_pos = pos, best_dist = None, best_type = NoSnap\<rparr> (snapCandidates st)"
proof (cases "trackingIntersection st")
  case None
  then show ?thesis
    by (simp add: Let_def snapCandidates_def foldl_midStep foldl_vertices)
next
  case (Some q)
  then show ?thesis
    by (simp add: Let_def snapCandidates_def foldl_midStep foldl_vertices consider_first)
qed

lemma consider_pre:
  "beaten dc b \<Longrightarrow> r \<le> distance pos c' \<or> dc < distance pos c'
     \<Longrightarrow> beaten dc (considerPair r pos b (c', t'))"
  by (auto simp: beaten_def considerPair_def considerCandidate_def Let_def split: option.splits)

lemma foldl_consider_pre:
  "beaten dc b \<Longrightarrow> \<forall>(c', t') \<in> set pre. r \<le> distance pos c' \<or> dc < distance pos c'
     \<Longrightarrow> beaten dc (foldl (considerPair r pos) b pre)"
proof (induction pre arbitrary: b)
  case Nil
  then show ?case by simp
next
  case (Cons p pre)
  obtain c' t' where p: "p = (c', t')" by (cases p)
  from Cons.prems p have "beaten dc (considerPair r pos b (c', t'))"
    by (intro consider_pre) auto
  with Cons p show ?case by simp
qed

lemma consider_win:
  "beaten (distance pos c) b \<Longrightarrow> distance pos c < r
     \<Longrightarrow> considerPair r pos b (c, ty)
           = \<lparr>best_pos = c, best_dist = Some (distance pos c), best_type = ty\<rparr>"
  by (auto simp: beaten_def considerPair_def considerCandidate_def Let_def split: option.splits)

lemma foldl_consider_post:
  "best_dist b = Some dc \<Longrightarrow> \<forall>(c', t') \<in> set post. r \<le> distance pos c' \<or> dc \<le> distance pos c'
     \<Longrightarrow> foldl (considerPair r pos) b post = b"
proof (induction post)
  case Nil
  then show ?case by simp
next
  case (Cons p post)
  obtain c' t' where p: "p = (c', t')" by (cases p)
  from Cons.prems p have "considerPair r pos b (c', t') = b"
    by (auto simp: considerPair_def considerCandidate_def Let_def)
  with Cons p show ?case by simp
qed

lemma candidate_types:
  "(c, ty) \<in> set (snapCandidates st) \<Longrightarrow> ty \<in> {Intersection, Vertex, Midpoint}"
  by (auto simp: snapCandidates_def split: option.splits if_splits)

text \<open>
  Claim C2, as amended.  The claim as stated fails: the intersection of the tracking guides
  has no priority over a nearer vertex or midpoint.  Every candidate replaces the best one
  so far only when it is within the radius and strictly nearer.  What holds in the ordinary
  branch: of the candidates in the order of the source (the intersection with object
  tracking, then the vertices, then the wall midpoints with object snap), the result is the
  candidate within \<open>SNAP_DISTANCE / zoom\<close> that is strictly nearer than each candidate
  within the radius before it and at least as near as each after it, with its type.  So the
  intersection is returned when no vertex and no midpoint is strictly nearer, and a vertex
  wins over a midpoint at the same distance.
\<close>

theorem ordinary_snap_nearest_first:
  assumes ord: "\<not> polarActive st"
    and cands: "snapCandidates st = pre @ (c, ty) # post"
    and near: "distance pos c < SNAP_DISTANCE / zoom st"
    and before: "\<forall>(c', t') \<in> set pre.
        SNAP_DISTANCE / zoom st \<le> distance pos c' \<or> distance pos c < distance pos c'"
    and after: "\<forall>(c', t') \<in> set post.
        SNAP_DISTANCE / zoom st \<le> distance pos c' \<or> distance pos c \<le> distance pos c'"
  shows "getSnappedPos st pos = \<lparr>snap_pos = c, snap_type = ty\<rparr>"
proof -
  let ?r = "SNAP_DISTANCE / zoom st"
  let ?b0 = "\<lparr>best_pos = pos, best_dist = None, best_type = NoSnap\<rparr>"
  let ?w = "\<lparr>best_pos = c, best_dist = Some (distance pos c), best_type = ty\<rparr>"
  have "beaten (distance pos c) ?b0" by (simp add: beaten_def)
  with before have "beaten (distance pos c) (foldl (considerPair ?r pos) ?b0 pre)"
    by (intro foldl_consider_pre)
  with near have "considerPair ?r pos (foldl (considerPair ?r pos) ?b0 pre) (c, ty) = ?w"
    by (intro consider_win)
  moreover have "foldl (considerPair ?r pos) ?w post = ?w"
    using after by (intro foldl_consider_post) simp_all
  ultimately have best: "foldl (considerPair ?r pos) ?b0 (snapCandidates st) = ?w"
    by (simp add: cands)
  have "(c, ty) \<in> set (snapCandidates st)" by (simp add: cands)
  then have ty: "ty \<in> {Intersection, Vertex, Midpoint}" by (rule candidate_types)
  have "\<not> (activeTool st = WALL
     \<and> (case activeArea st of None \<Rightarrow> [] | Some a \<Rightarrow> points a) \<noteq> []
     \<and> (activeAngleSnap st \<noteq> None \<or> activeLengthSnap st \<noteq> None))"
    using ord unfolding polarActive_def .
  then have "getSnappedPos st pos = ordinarySnap st pos"
    unfolding getSnappedPos_def Let_def by (rule if_not_P)
  also have "\<dots> = \<lparr>snap_pos = c, snap_type = ty\<rparr>"
    unfolding ordinarySnap_def using ordinary_best [of st pos] best ty
    by (simp add: Let_def)
  finally show ?thesis .
qed

text \<open>
  With the guides through (0, 0), the cursor at (45, 0) and the radius 200, the intersection
  is within the radius at distance 45, and the resolver returns the midpoint (50, 0) of
  the wall.
\<close>

lemma tracking_cands: "snapCandidates trackingState =
  [(\<lparr>px = 0, py = 0\<rparr>, Intersection), (\<lparr>px = 0, py = 0\<rparr>, Vertex), (\<lparr>px = 100, py = 0\<rparr>, Vertex),
   (\<lparr>px = 50, py = 0\<rparr>, Midpoint)]"
  by (simp add: snapCandidates_def trackingState_def drawnArea_def mkPoint_def posOf_def
      allWallsOf_def map_filter_simps wallMidpoint_def)

theorem snap_counterexample:
  "snapOtrack trackingState \<and> trackingIntersection trackingState = Some \<lparr>px = 0, py = 0\<rparr>
   \<and> getLineIntersection \<lparr>px = 0, py = 0\<rparr> \<lparr>px = 1, py = 0\<rparr> \<lparr>px = 0, py = 0\<rparr> \<lparr>px = 0, py = 1\<rparr>
       = Some \<lparr>px = 0, py = 0\<rparr>
   \<and> distance \<lparr>px = 45, py = 0\<rparr> \<lparr>px = 0, py = 0\<rparr> < SNAP_DISTANCE / zoom trackingState
   \<and> getSnappedPos trackingState \<lparr>px = 45, py = 0\<rparr>
       = \<lparr>snap_pos = \<lparr>px = 50, py = 0\<rparr>, snap_type = Midpoint\<rparr>"
  by (simp add: getSnappedPos_def ordinarySnap_def trackingState_def drawnArea_def mkPoint_def
      posOf_def allWallsOf_def midStep_def wallMidpoint_def considerCandidate_def distance_def
      SNAP_DISTANCE_def getLineIntersection_def Let_def)

lemma tracking_ordinary: "\<not> polarActive trackingState"
  by (simp add: polarActive_def trackingState_def)

lemma tracking_radius: "SNAP_DISTANCE / zoom trackingState = 200"
  by (simp add: SNAP_DISTANCE_def trackingState_def)

text \<open>
  Three cursors in the same state: a midpoint nearer than the intersection wins; the
  intersection wins over the vertex at the same place; the vertex (100, 0) wins over the
  midpoint (50, 0) at the same distance from (75, 0).
\<close>

theorem ordinary_snap_nearest_first_witness:
  "getSnappedPos trackingState \<lparr>px = 40, py = 0\<rparr>
       = \<lparr>snap_pos = \<lparr>px = 50, py = 0\<rparr>, snap_type = Midpoint\<rparr>
   \<and> getSnappedPos trackingState \<lparr>px = - 5, py = 0\<rparr>
       = \<lparr>snap_pos = \<lparr>px = 0, py = 0\<rparr>, snap_type = Intersection\<rparr>
   \<and> getSnappedPos trackingState \<lparr>px = 75, py = 0\<rparr>
       = \<lparr>snap_pos = \<lparr>px = 100, py = 0\<rparr>, snap_type = Vertex\<rparr>"
proof -
  have mid: "getSnappedPos trackingState \<lparr>px = 40, py = 0\<rparr>
       = \<lparr>snap_pos = \<lparr>px = 50, py = 0\<rparr>, snap_type = Midpoint\<rparr>"
    by (rule ordinary_snap_nearest_first
        [where pre = "[(\<lparr>px = 0, py = 0\<rparr>, Intersection), (\<lparr>px = 0, py = 0\<rparr>, Vertex),
                       (\<lparr>px = 100, py = 0\<rparr>, Vertex)]" and post = "[]"])
      (simp_all add: tracking_ordinary tracking_cands tracking_radius distance_def)
  have inter: "getSnappedPos trackingState \<lparr>px = - 5, py = 0\<rparr>
       = \<lparr>snap_pos = \<lparr>px = 0, py = 0\<rparr>, snap_type = Intersection\<rparr>"
    by (rule ordinary_snap_nearest_first
        [where pre = "[]" and post = "[(\<lparr>px = 0, py = 0\<rparr>, Vertex),
                       (\<lparr>px = 100, py = 0\<rparr>, Vertex), (\<lparr>px = 50, py = 0\<rparr>, Midpoint)]"])
      (simp_all add: tracking_ordinary tracking_cands tracking_radius distance_def)
  have vert: "getSnappedPos trackingState \<lparr>px = 75, py = 0\<rparr>
       = \<lparr>snap_pos = \<lparr>px = 100, py = 0\<rparr>, snap_type = Vertex\<rparr>"
    by (rule ordinary_snap_nearest_first
        [where pre = "[(\<lparr>px = 0, py = 0\<rparr>, Intersection), (\<lparr>px = 0, py = 0\<rparr>, Vertex)]"
           and post = "[(\<lparr>px = 50, py = 0\<rparr>, Midpoint)]"])
      (simp_all add: tracking_ordinary tracking_cands tracking_radius distance_def)
  from mid inter vert show ?thesis by simp
qed

section \<open>Snap resolver: the polar branch\<close>

lemma wrapUp_props: "- pi < wrapUp r \<and> (r \<le> pi \<longrightarrow> wrapUp r \<le> pi) \<and> (r > - pi \<longrightarrow> wrapUp r = r)
   \<and> (\<exists>k::int. wrapUp r = r + 2 * pi * of_int k) \<and> r \<le> wrapUp r"
proof (induction r rule: wrapUp.induct)
  case (1 r)
  show ?case
  proof (cases "r \<le> - pi")
    case True
    note ih = 1 [OF True]
    have eq: "wrapUp r = wrapUp (r + 2 * pi)" using True by (subst wrapUp.simps) simp
    from ih obtain k :: int where k: "wrapUp (r + 2 * pi) = r + 2 * pi + 2 * pi * of_int k" by blast
    have "wrapUp r = r + 2 * pi * of_int (k + 1)"
      unfolding eq k by (simp add: algebra_simps)
    then have ex: "\<exists>k::int. wrapUp r = r + 2 * pi * of_int k" by blast
    have "r + 2 * pi \<le> pi" using True by simp
    with ih have "wrapUp r \<le> pi" unfolding eq by simp
    moreover have "- pi < wrapUp r" using ih unfolding eq by simp
    moreover have "r \<le> wrapUp r" using ih pi_gt_zero unfolding eq by linarith
    ultimately show ?thesis using True ex by simp
  next
    case False
    then have eq: "wrapUp r = r" by (subst wrapUp.simps) simp
    have "\<exists>k::int. r = r + 2 * pi * of_int k" by (rule exI [of _ 0]) simp
    with False eq show ?thesis by simp
  qed
qed

lemma wrapDown_props: "wrapDown r \<le> pi \<and> (- pi < r \<longrightarrow> - pi < wrapDown r)
   \<and> (\<exists>k::int. wrapDown r = r + 2 * pi * of_int k)"
proof (induction r rule: wrapDown.induct)
  case (1 r)
  show ?case
  proof (cases "r > pi")
    case True
    note ih = 1 [OF True]
    have eq: "wrapDown r = wrapDown (r - 2 * pi)" using True by (subst wrapDown.simps) simp
    from ih obtain k :: int where k: "wrapDown (r - 2 * pi) = r - 2 * pi + 2 * pi * of_int k" by blast
    have "wrapDown r = r + 2 * pi * of_int (k - 1)"
      unfolding eq k by (simp add: algebra_simps)
    then have ex: "\<exists>k::int. wrapDown r = r + 2 * pi * of_int k" by blast
    have "- pi < r - 2 * pi" using True by simp
    with ih have "- pi < wrapDown r" unfolding eq by simp
    moreover have "wrapDown r \<le> pi" using ih unfolding eq by simp
    ultimately show ?thesis using ex by simp
  next
    case False
    then have eq: "wrapDown r = r" by (subst wrapDown.simps) simp
    have "\<exists>k::int. r = r + 2 * pi * of_int k" by (rule exI [of _ 0]) simp
    with False eq show ?thesis by simp
  qed
qed

lemma wrapAngle_range:
  "- pi < wrapAngle r \<and> wrapAngle r \<le> pi \<and> (\<exists>k::int. wrapAngle r = r + 2 * pi * of_int k)"
proof -
  from wrapUp_props [of r] obtain k :: int where
    u: "- pi < wrapUp r" "wrapUp r = r + 2 * pi * of_int k" by blast
  from wrapDown_props [of "wrapUp r"] u(1) obtain j :: int where
    d: "wrapDown (wrapUp r) \<le> pi" "- pi < wrapDown (wrapUp r)"
       "wrapDown (wrapUp r) = wrapUp r + 2 * pi * of_int j" by blast
  have "wrapAngle r = wrapUp r + 2 * pi * of_int j"
    unfolding wrapAngle_def by (rule d(3))
  also have "\<dots> = r + 2 * pi * of_int k + 2 * pi * of_int j"
    by (simp only: u(2))
  also have "\<dots> = r + 2 * pi * of_int (k + j)"
    by (simp add: algebra_simps)
  finally have "wrapAngle r = r + 2 * pi * of_int (k + j)" .
  then have "\<exists>k::int. wrapAngle r = r + 2 * pi * of_int k" by blast
  with d show ?thesis by (simp add: wrapAngle_def)
qed

lemma wrapAngle_id: "- pi < r \<Longrightarrow> r \<le> pi \<Longrightarrow> wrapAngle r = r"
proof -
  assume l: "- pi < r" and u: "r \<le> pi"
  from l have "wrapUp r = r" by (subst wrapUp.simps) simp
  moreover from u have "wrapDown r = r" by (subst wrapDown.simps) simp
  ultimately show ?thesis by (simp add: wrapAngle_def)
qed

lemma mathRound_nearest:
  assumes "0 < m"
  shows "\<exists>n::int. mathRound (v / m) * m = of_int n * m \<and> \<bar>mathRound (v / m) * m - v\<bar> \<le> m / 2"
proof -
  let ?n = "\<lfloor>v / m + 1 / 2\<rfloor>"
  have lo: "of_int ?n \<le> v / m + 1 / 2" by (rule of_int_floor_le)
  have hi: "v / m + 1 / 2 < of_int ?n + 1" by linarith
  have "\<bar>of_int ?n - v / m\<bar> \<le> 1 / 2" using lo hi by linarith
  then have "\<bar>of_int ?n - v / m\<bar> * m \<le> 1 / 2 * m"
    using assms by (intro mult_right_mono) simp_all
  moreover have "\<bar>of_int ?n - v / m\<bar> * m = \<bar>of_int ?n * m - v\<bar>"
  proof -
    have "\<bar>of_int ?n - v / m\<bar> * m = \<bar>(of_int ?n - v / m) * m\<bar>"
      using assms by (simp add: abs_mult)
    also have "(of_int ?n - v / m) * m = of_int ?n * m - v"
      using assms by (simp add: field_simps)
    finally show ?thesis .
  qed
  ultimately have "\<bar>of_int ?n * m - v\<bar> \<le> m / 2" by simp
  then show ?thesis unfolding mathRound_def by blast
qed

text \<open>
  Claim C7, as amended.  The claim as stated fails: the polar branch is taken only while the
  wall tool is active; with another tool, the same increments and the same last point the
  resolver goes through the ordinary branch.  What holds when the wall tool is active, the
  active area has a last point and an angle or a length increment is set (the angle
  increment not 0): the two loops bring any angle into the interval from \<open>-pi\<close>
  (excluded) to \<open>pi\<close> (included) by a multiple of \<open>2 * pi\<close>; rounding to a positive
  increment gives a multiple of it at most half an increment away; and the result is built
  from the angle of the cursor relative to the reference direction (the direction of the
  previous segment, or 0), wrapped and rounded to the angle increment and added to the
  reference direction again, and the distance from the last point rounded to the length
  increment, by polar to Cartesian conversion about the last point, with type extension;
  a distance of 0 gives the last point itself with type vertex.  With any other tool, and
  whenever the guard of the polar branch fails, the result is that of the ordinary branch.
\<close>

theorem polar_snap_spec:
  "(- pi < wrapAngle r \<and> wrapAngle r \<le> pi \<and> (\<exists>k::int. wrapAngle r = r + 2 * pi * of_int k))
    \<and> (0 < m \<longrightarrow> (\<exists>n::int. mathRound (v / m) * m = of_int n * m
                      \<and> \<bar>mathRound (v / m) * m - v\<bar> \<le> m / 2))
    \<and> (polarActive st \<and> activeArea st = Some ar \<and> activeAngleSnap st \<noteq> Some 0 \<longrightarrow>
       getSnappedPos st pos =
       (let lastPoint = last (points ar);
            rawAngle = atan2 (py pos - py lastPoint) (px pos - px lastPoint);
            rawDist = distance lastPoint pos;
            ref = referenceDirection (points ar);
            angle = (case activeAngleSnap st of
                       None \<Rightarrow> rawAngle
                     | Some inc \<Rightarrow>
                         ref + mathRound (wrapAngle (rawAngle - ref) / (inc * (pi / 180)))
                                 * (inc * (pi / 180)));
            dist = (case activeLengthSnap st of
                      None \<Rightarrow> rawDist
                    | Some l \<Rightarrow> if l > 0 then mathRound (rawDist / l) * l else rawDist)
        in if dist = 0 then \<lparr>snap_pos = posOf lastPoint, snap_type = Vertex\<rparr>
           else \<lparr>snap_pos = \<lparr>px = px lastPoint + dist * cos angle,
                              py = py lastPoint + dist * sin angle\<rparr>,
                 snap_type = Extension\<rparr>))
    \<and> (activeTool st \<noteq> WALL \<longrightarrow> getSnappedPos st pos = ordinarySnap st pos)
    \<and> (\<not> polarActive st \<longrightarrow> getSnappedPos st pos = ordinarySnap st pos)"
proof (intro conjI impI)
  show "- pi < wrapAngle r" "wrapAngle r \<le> pi" "\<exists>k::int. wrapAngle r = r + 2 * pi * of_int k"
    using wrapAngle_range [of r] by simp_all
  show "\<exists>n::int. mathRound (v / m) * m = of_int n * m
                      \<and> \<bar>mathRound (v / m) * m - v\<bar> \<le> m / 2" if "0 < m"
    using mathRound_nearest [of m v] that by simp
  show "getSnappedPos st pos = ordinarySnap st pos" if "activeTool st \<noteq> WALL"
    using that by (simp add: getSnappedPos_def Let_def)
  show "getSnappedPos st pos = ordinarySnap st pos" if "\<not> polarActive st"
    using that by (auto simp add: getSnappedPos_def polarActive_def Let_def)
  assume "polarActive st \<and> activeArea st = Some ar \<and> activeAngleSnap st \<noteq> Some 0"
  then have act: "polarActive st" and ar: "activeArea st = Some ar" by simp_all
  have d: "sqrt ((px pos - px (last (points ar))) * (px pos - px (last (points ar)))
        + (py pos - py (last (points ar))) * (py pos - py (last (points ar))))
      = distance (last (points ar)) pos"
    by (simp add: distance_def power2_eq_square)
  have "getSnappedPos st pos = polarSnap st (points ar) pos"
    using act ar by (simp add: getSnappedPos_def polarActive_def Let_def)
  then show "getSnappedPos st pos =
       (let lastPoint = last (points ar);
            rawAngle = atan2 (py pos - py lastPoint) (px pos - px lastPoint);
            rawDist = distance lastPoint pos;
            ref = referenceDirection (points ar);
            angle = (case activeAngleSnap st of
                       None \<Rightarrow> rawAngle
                     | Some inc \<Rightarrow>
                         ref + mathRound (wrapAngle (rawAngle - ref) / (inc * (pi / 180)))
                                 * (inc * (pi / 180)));
            dist = (case activeLengthSnap st of
                      None \<Rightarrow> rawDist
                    | Some l \<Rightarrow> if l > 0 then mathRound (rawDist / l) * l else rawDist)
        in if dist = 0 then \<lparr>snap_pos = posOf lastPoint, snap_type = Vertex\<rparr>
           else \<lparr>snap_pos = \<lparr>px = px lastPoint + dist * cos angle,
                              py = py lastPoint + dist * sin angle\<rparr>,
                 snap_type = Extension\<rparr>)"
    unfolding polarSnap_def Let_def d referenceDirection_def by simp
qed

text \<open>
  With the move tool, the increments 15 degrees and 100 and the last point (100, 0), the
  cursor (340, 0) is returned unsnapped; the polar rule would give (300, 0).
\<close>

theorem polar_counterexample:
  "activeTool moveState = MOVE \<and> activeAngleSnap moveState = Some 15
   \<and> activeLengthSnap moveState = Some 100
   \<and> activeArea moveState = Some drawnArea \<and> last (points drawnArea) = mkPoint 22 100 0
   \<and> getSnappedPos moveState \<lparr>px = 340, py = 0\<rparr>
       = \<lparr>snap_pos = \<lparr>px = 340, py = 0\<rparr>, snap_type = NoSnap\<rparr>
   \<and> polarSnap moveState (points drawnArea) \<lparr>px = 340, py = 0\<rparr>
       = \<lparr>snap_pos = \<lparr>px = 300, py = 0\<rparr>, snap_type = Extension\<rparr>"
proof -
  have w: "wrapAngle 0 = 0" by (rule wrapAngle_id) simp_all
  have r: "mathRound (12 / 5) = 2" by (simp add: mathRound_def)
  have g: "getSnappedPos moveState \<lparr>px = 340, py = 0\<rparr>
       = \<lparr>snap_pos = \<lparr>px = 340, py = 0\<rparr>, snap_type = NoSnap\<rparr>"
    by (simp add: getSnappedPos_def ordinarySnap_def moveState_def polarState_def Let_def)
  have p: "polarSnap moveState (points drawnArea) \<lparr>px = 340, py = 0\<rparr>
       = \<lparr>snap_pos = \<lparr>px = 300, py = 0\<rparr>, snap_type = Extension\<rparr>"
    by (simp add: polarSnap_def moveState_def polarState_def drawnArea_def mkPoint_def
        atan2_def w r mathRound_def Let_def)
  show ?thesis using g p
    by (simp add: moveState_def polarState_def drawnArea_def)
qed

text \<open>
  Scenario 5 of the specification: reference direction 0, angle increment 15 degrees, raw
  relative angle 10 degrees, length increment 100, raw distance 240.  The result lies at
  15 degrees and distance 200 from the last point (100, 0).  The cursor on the last point
  gives the last point with type vertex.
\<close>

lemma polarState_active: "polarActive polarState"
  by (simp add: polarActive_def polarState_def drawnArea_def)

lemma scenario5_angle:
  "atan2 (240 * sin (pi / 18)) (240 * cos (pi / 18)) = pi / 18"
proof -
  have lo: "- (pi / 2) < pi / 18" and hi: "pi / 18 < pi / 2"
    using pi_gt_zero by simp_all
  have c: "0 < cos (pi / 18)" using lo hi by (rule cos_gt_zero_pi)
  have "240 * sin (pi / 18) / (240 * cos (pi / 18)) = tan (pi / 18)"
    by (simp add: tan_def)
  moreover have "arctan (tan (pi / 18)) = pi / 18" using lo hi by (rule arctan_tan)
  ultimately show ?thesis using c by (simp add: atan2_def)
qed

lemma scenario5_dist:
  "sqrt ((240 * cos (pi / 18)) ^ 2 + (240 * sin (pi / 18)) ^ 2) = 240"
proof -
  have "(240 * cos (pi / 18)) ^ 2 + (240 * sin (pi / 18)) ^ 2
      = 240 ^ 2 * ((cos (pi / 18)) ^ 2 + (sin (pi / 18)) ^ 2)"
    by (simp only: power_mult_distrib distrib_left)
  also have "\<dots> = 240 ^ 2" by (simp only: cos_squared_eq) simp
  finally have "sqrt ((240 * cos (pi / 18)) ^ 2 + (240 * sin (pi / 18)) ^ 2) = sqrt (240 ^ 2)"
    by (rule arg_cong)
  then show ?thesis by simp
qed

lemma scenario5_round_angle: "mathRound (pi / 18 / (15 * (pi / 180))) = 1"
proof -
  have "pi / 18 / (15 * (pi / 180)) = 2 / 3" by simp
  then show ?thesis by (simp add: mathRound_def)
qed

theorem polar_snap_spec_witness:
  "getSnappedPos polarState \<lparr>px = 100 + 240 * cos (pi / 18), py = 240 * sin (pi / 18)\<rparr>
       = \<lparr>snap_pos = \<lparr>px = 100 + 200 * cos (pi / 12), py = 200 * sin (pi / 12)\<rparr>,
          snap_type = Extension\<rparr>
   \<and> getSnappedPos polarState \<lparr>px = 100, py = 0\<rparr>
       = \<lparr>snap_pos = \<lparr>px = 100, py = 0\<rparr>, snap_type = Vertex\<rparr>
   \<and> getSnappedPos moveState \<lparr>px = 340, py = 0\<rparr> = ordinarySnap moveState \<lparr>px = 340, py = 0\<rparr>
   \<and> ordinarySnap moveState \<lparr>px = 340, py = 0\<rparr>
       = \<lparr>snap_pos = \<lparr>px = 340, py = 0\<rparr>, snap_type = NoSnap\<rparr>"
proof -
  let ?P = "\<lparr>px = 100 + 240 * cos (pi / 18), py = 240 * sin (pi / 18)\<rparr>"
  let ?L = "mkPoint 22 100 0"
  have ar: "activeArea polarState = Some drawnArea" by (simp add: polarState_def)
  have nz: "activeAngleSnap polarState \<noteq> Some 0" by (simp add: polarState_def)
  have inc: "activeAngleSnap polarState = Some 15" "activeLengthSnap polarState = Some 100"
    by (simp_all add: polarState_def)
  have L: "last (points drawnArea) = ?L" by (simp add: drawnArea_def)
  have ref: "referenceDirection (points drawnArea) = 0"
    by (simp add: referenceDirection_def drawnArea_def mkPoint_def atan2_def)
  have A: "atan2 (py ?P - py ?L) (px ?P - px ?L) = pi / 18"
    using scenario5_angle by (simp add: mkPoint_def)
  have D: "distance ?L ?P = 240"
    using scenario5_dist by (simp add: distance_def mkPoint_def)
  have w: "wrapAngle (pi / 18 - 0) = pi / 18"
    using pi_gt_zero by (simp add: wrapAngle_id)
  have ANG: "0 + mathRound (wrapAngle (pi / 18 - 0) / (15 * (pi / 180))) * (15 * (pi / 180))
      = pi / 12"
    by (simp only: w scenario5_round_angle)
  have DIST: "(if (0::real) < 100 then mathRound (240 / 100) * 100 else 240) = 200"
    by (simp add: mathRound_def)
  have "getSnappedPos polarState ?P =
      (if (200::real) = 0 then \<lparr>snap_pos = posOf ?L, snap_type = Vertex\<rparr>
       else \<lparr>snap_pos = \<lparr>px = px ?L + 200 * cos (pi / 12), py = py ?L + 200 * sin (pi / 12)\<rparr>,
             snap_type = Extension\<rparr>)"
    using polar_snap_spec [of 0 1 0 polarState drawnArea ?P, THEN conjunct2, THEN conjunct2,
        THEN conjunct1, rule_format, OF conjI [OF polarState_active conjI [OF ar nz]]]
    by (simp only: Let_def inc option.case L A D ref ANG DIST)
  then have first: "getSnappedPos polarState ?P
       = \<lparr>snap_pos = \<lparr>px = 100 + 200 * cos (pi / 12), py = 200 * sin (pi / 12)\<rparr>,
          snap_type = Extension\<rparr>"
    by (simp add: mkPoint_def)
  have A0: "atan2 (py \<lparr>px = 100, py = 0\<rparr> - py ?L) (px \<lparr>px = 100, py = 0\<rparr> - px ?L) = 0"
    by (simp add: mkPoint_def atan2_def)
  have D0: "distance ?L \<lparr>px = 100, py = 0\<rparr> = 0"
    by (simp add: distance_def mkPoint_def)
  have DIST0: "(if (0::real) < 100 then mathRound (0 / 100) * 100 else 0) = 0"
    by (simp add: mathRound_def)
  have "getSnappedPos polarState \<lparr>px = 100, py = 0\<rparr> =
      (if (0::real) = 0 then \<lparr>snap_pos = posOf ?L, snap_type = Vertex\<rparr>
       else \<lparr>snap_pos =
               \<lparr>px = px ?L + 0 * cos (0 + mathRound (wrapAngle (0 - 0) / (15 * (pi / 180)))
                                          * (15 * (pi / 180))),
                py = py ?L + 0 * sin (0 + mathRound (wrapAngle (0 - 0) / (15 * (pi / 180)))
                                          * (15 * (pi / 180)))\<rparr>,
             snap_type = Extension\<rparr>)"
    using polar_snap_spec [of 0 1 0 polarState drawnArea "\<lparr>px = 100, py = 0\<rparr>",
        THEN conjunct2, THEN conjunct2, THEN conjunct1, rule_format,
        OF conjI [OF polarState_active conjI [OF ar nz]]]
    by (simp only: Let_def inc option.case L A0 D0 ref DIST0)
  then have second: "getSnappedPos polarState \<lparr>px = 100, py = 0\<rparr>
       = \<lparr>snap_pos = \<lparr>px = 100, py = 0\<rparr>, snap_type = Vertex\<rparr>"
    by (simp add: mkPoint_def posOf_def)
  have tool: "activeTool moveState \<noteq> WALL" by (simp add: moveState_def polarState_def)
  have third: "getSnappedPos moveState \<lparr>px = 340, py = 0\<rparr>
      = ordinarySnap moveState \<lparr>px = 340, py = 0\<rparr>"
    using polar_snap_spec [of 0 1 0 moveState drawnArea "\<lparr>px = 340, py = 0\<rparr>",
        THEN conjunct2, THEN conjunct2, THEN conjunct2, THEN conjunct1, rule_format, OF tool] .
  have fourth: "ordinarySnap moveState \<lparr>px = 340, py = 0\<rparr>
       = \<lparr>snap_pos = \<lparr>px = 340, py = 0\<rparr>, snap_type = NoSnap\<rparr>"
    by (simp add: ordinarySnap_def moveState_def polarState_def Let_def)
  from first second third fourth show ?thesis by simp
qed

section \<open>Offcut packing\<close>

subsection \<open>Congruence and sortedness of the stable sort\<close>

lemma set_insertBy: "set (insertBy cmp a xs) = insert a (set xs)"
  using mset_insertBy [of cmp a xs] by (metis set_mset_add_mset_insert set_mset_mset)

lemma insertBy_cong:
  "\<forall>b\<in>set ys. cmp a b = cmp' a b \<Longrightarrow> insertBy cmp a ys = insertBy cmp' a ys"
  by (induction ys) simp_all

lemma foldl_insertBy_cong:
  "\<forall>a\<in>set acc \<union> set xs. \<forall>b\<in>set acc \<union> set xs. cmp a b = cmp' a b \<Longrightarrow>
     foldl (\<lambda>acc a. insertBy cmp a acc) acc xs = foldl (\<lambda>acc a. insertBy cmp' a acc) acc xs"
proof (induction xs arbitrary: acc)
  case Nil
  show ?case by simp
next
  case (Cons x xs)
  have "insertBy cmp x acc = insertBy cmp' x acc"
    using Cons.prems by (intro insertBy_cong) simp
  moreover have "foldl (\<lambda>acc a. insertBy cmp a acc) (insertBy cmp' x acc) xs
      = foldl (\<lambda>acc a. insertBy cmp' a acc) (insertBy cmp' x acc) xs"
    using Cons.prems by (intro Cons.IH) (auto simp: set_insertBy)
  ultimately show ?case by simp
qed

lemma sortBy_cong:
  "\<forall>a\<in>set xs. \<forall>b\<in>set xs. cmp a b = cmp' a b \<Longrightarrow> sortBy cmp xs = sortBy cmp' xs"
  unfolding sortBy_def by (rule foldl_insertBy_cong) simp

lemma sorted_insertBy_key:
  fixes key :: "'a \<Rightarrow> real"
  assumes "\<forall>b\<in>set xs. (cmp a b < 0) = (key a < key b)"
    and "sorted_wrt (\<lambda>u v. key u \<le> key v) xs"
  shows "sorted_wrt (\<lambda>u v. key u \<le> key v) (insertBy cmp a xs)"
  using assms
proof (induction xs)
  case Nil
  show ?case by simp
next
  case (Cons b bs)
  show ?case
  proof (cases "cmp a b < 0")
    case True
    with Cons.prems have "key a < key b" by simp
    with Cons.prems True show ?thesis by (auto intro: less_imp_le order_trans)
  next
    case False
    with Cons.prems have "key b \<le> key a" by simp
    with Cons False show ?thesis by (auto simp: set_insertBy)
  qed
qed

lemma sorted_foldl_insertBy_key:
  fixes key :: "'a \<Rightarrow> real"
  assumes "\<forall>a\<in>set acc \<union> set xs. \<forall>b\<in>set acc \<union> set xs. (cmp a b < 0) = (key a < key b)"
    and "sorted_wrt (\<lambda>u v. key u \<le> key v) acc"
  shows "sorted_wrt (\<lambda>u v. key u \<le> key v) (foldl (\<lambda>acc a. insertBy cmp a acc) acc xs)"
  using assms
proof (induction xs arbitrary: acc)
  case Nil
  then show ?case by simp
next
  case (Cons x xs)
  have "sorted_wrt (\<lambda>u v. key u \<le> key v) (insertBy cmp x acc)"
    using Cons.prems by (intro sorted_insertBy_key) simp_all
  moreover have "\<forall>a\<in>set (insertBy cmp x acc) \<union> set xs.
      \<forall>b\<in>set (insertBy cmp x acc) \<union> set xs. (cmp a b < 0) = (key a < key b)"
    using Cons.prems(1) by (auto simp: set_insertBy)
  ultimately show ?case using Cons.IH by simp
qed

lemma sorted_sortBy_key:
  fixes key :: "'a \<Rightarrow> real"
  assumes "\<forall>a\<in>set xs. \<forall>b\<in>set xs. (cmp a b < 0) = (key a < key b)"
  shows "sorted_wrt (\<lambda>u v. key u \<le> key v) (sortBy cmp xs)"
  unfolding sortBy_def using assms by (intro sorted_foldl_insertBy_key) simp_all

subsection \<open>The tallest tile of a row\<close>

lemma foldl_max_Max: "foldl max a xs = Max (insert a (set xs))" for a :: real
proof (induction xs arbitrary: a)
  case Nil
  show ?case by simp
next
  case (Cons x xs)
  have "foldl max a (x # xs) = Max (insert (max a x) (set xs))"
    using Cons.IH [of "max a x"] by simp
  also have "\<dots> = Max (insert a (insert x (set xs)))"
    by (cases "set xs = {}") (simp_all add: max.assoc Max_insert max.commute max.left_commute)
  finally show ?case by simp
qed

lemma tallestIn_set: "set row = set row' \<Longrightarrow> tallestIn store row = tallestIn store row'"
  by (simp add: tallestIn_def foldl_max_Max)

subsection \<open>The layout changes positions only\<close>

lemma map_originalTile_update:
  "map originalTile (store[p := (store ! p)\<lparr>piece_x := x, piece_y := y\<rparr>]) = map originalTile store"
proof (cases "p < length store")
  case True
  then show ?thesis by (simp add: map_update list_update_same_conv)
next
  case False
  then have "store[p := (store ! p)\<lparr>piece_x := x, piece_y := y\<rparr>] = store"
    by (intro list_update_beyond) simp
  then show ?thesis by simp
qed

lemma map_originalTile_placeRow:
  "map originalTile (placeRow P y x ps store) = map originalTile store"
  by (induction ps arbitrary: x store) (simp_all add: map_originalTile_update)

lemma same_tiles_nth:
  "map originalTile s' = map originalTile s \<Longrightarrow> p < length s
     \<Longrightarrow> originalTile (s' ! p) = originalTile (s ! p)"
  by (metis length_map nth_map)

lemma same_tiles_length: "map originalTile s' = map originalTile s \<Longrightarrow> length s' = length s"
  by (metis length_map)

lemma widthsIn_same:
  assumes "map originalTile s' = map originalTile s" and "\<forall>p\<in>set ps. p < length s"
  shows "widthsIn s' ps = widthsIn s ps"
  unfolding widthsIn_def
proof (rule map_cong [OF refl])
  fix p assume "p \<in> set ps"
  with assms(2) have "p < length s" by simp
  with assms(1) have "originalTile (s' ! p) = originalTile (s ! p)" by (rule same_tiles_nth)
  then show "width (originalTile (s' ! p)) = width (originalTile (s ! p))" by simp
qed

lemma tallestIn_same:
  assumes "map originalTile s' = map originalTile s" and "\<forall>p\<in>set ps. p < length s"
  shows "tallestIn s' ps = tallestIn s ps"
proof -
  have "map (\<lambda>p. height (originalTile (s' ! p))) ps = map (\<lambda>p. height (originalTile (s ! p))) ps"
  proof (rule map_cong [OF refl])
    fix p assume "p \<in> set ps"
    with assms(2) have "p < length s" by simp
    with assms(1) have "originalTile (s' ! p) = originalTile (s ! p)" by (rule same_tiles_nth)
    then show "height (originalTile (s' ! p)) = height (originalTile (s ! p))" by simp
  qed
  then show ?thesis by (simp only: tallestIn_def)
qed

lemma sortBy_pieceCompare_same:
  assumes "map originalTile s' = map originalTile s" and "\<forall>p\<in>set ps. p < length s"
  shows "sortBy (pieceCompare s') ps = sortBy (pieceCompare s) ps"
proof (rule sortBy_cong, intro ballI)
  fix a b assume "a \<in> set ps" "b \<in> set ps"
  with assms(2) have a: "a < length s" and b: "b < length s" by simp_all
  have "originalTile (s' ! a) = originalTile (s ! a)"
    using assms(1) a by (rule same_tiles_nth)
  moreover have "originalTile (s' ! b) = originalTile (s ! b)"
    using assms(1) b by (rule same_tiles_nth)
  ultimately show "pieceCompare s' a b = pieceCompare s a b" by (simp only: pieceCompare_def)
qed

lemma placeRow_length: "length (placeRow P y x ps store) = length store"
  by (induction ps arbitrary: x store) simp_all

lemma placeRow_other: "i \<notin> set ps \<Longrightarrow> placeRow P y x ps store ! i = store ! i"
  by (induction ps arbitrary: x store) simp_all

lemma placeRow_placed:
  "distinct ps \<Longrightarrow> \<forall>p\<in>set ps. p < length store \<Longrightarrow> j < length ps \<Longrightarrow>
     placeRow P y x ps store ! (ps ! j)
       = (store ! (ps ! j))\<lparr>piece_x := rowXs P x (widthsIn store ps) ! j, piece_y := y\<rparr>"
proof (induction ps arbitrary: x store j)
  case Nil
  then show ?case by simp
next
  case (Cons p qs)
  let ?s' = "store[p := (store ! p)\<lparr>piece_x := x, piece_y := y\<rparr>]"
  let ?x' = "x + width (originalTile (store ! p)) + P"
  have pl: "p < length store" and pn: "p \<notin> set qs" and dq: "distinct qs"
    and rq: "\<forall>q\<in>set qs. q < length store"
    using Cons.prems by simp_all
  have w: "widthsIn store (p # qs) = width (originalTile (store ! p)) # widthsIn store qs"
    by (simp add: widthsIn_def)
  show ?case
  proof (cases j)
    case 0
    have "placeRow P y ?x' qs ?s' ! p = ?s' ! p" using pn by (rule placeRow_other)
    with pl 0 show ?thesis by (simp add: w)
  next
    case (Suc j')
    with Cons.prems have j': "j' < length qs" by simp
    then have qp: "qs ! j' \<noteq> p" using pn by (metis nth_mem)
    have rq': "\<forall>q\<in>set qs. q < length ?s'" using rq by simp
    have "map originalTile ?s' = map originalTile store" by (rule map_originalTile_update)
    then have ws: "widthsIn ?s' qs = widthsIn store qs" using rq by (rule widthsIn_same)
    from Cons.IH [OF dq rq' j', of ?x']
    have "placeRow P y ?x' qs ?s' ! (qs ! j')
        = (?s' ! (qs ! j'))\<lparr>piece_x := rowXs P ?x' (widthsIn ?s' qs) ! j', piece_y := y\<rparr>" .
    with qp Suc show ?thesis by (simp add: w ws)
  qed
qed

lemma placeColors_props:
  assumes "distinct cs"
    and "\<forall>c\<in>set cs. map_of groups c = Some (G c)"
    and "\<forall>c\<in>set cs. distinct (G c) \<and> (\<forall>p\<in>set (G c). p < length s0)"
    and "\<forall>c\<in>set cs. \<forall>c'\<in>set cs. c \<noteq> c' \<longrightarrow> set (G c) \<inter> set (G c') = {}"
    and "map originalTile store = map originalTile s0"
  shows "map originalTile (placeColors P minX groups y cs store) = map originalTile s0
    \<and> (\<forall>i. (\<forall>c\<in>set cs. i \<notin> set (G c)) \<longrightarrow>
          placeColors P minX groups y cs store ! i = store ! i)
    \<and> (\<forall>k<length cs. \<forall>j<length (G (cs ! k)).
          placeColors P minX groups y cs store ! (sortBy (pieceCompare s0) (G (cs ! k)) ! j)
            = (store ! (sortBy (pieceCompare s0) (G (cs ! k)) ! j))
                \<lparr>piece_x := rowXs P minX (widthsIn s0 (sortBy (pieceCompare s0) (G (cs ! k)))) ! j,
                 piece_y := rowYs P y
                   (map (\<lambda>c. tallestIn s0 (sortBy (pieceCompare s0) (G c))) cs) ! k\<rparr>)"
  using assms
proof (induction cs arbitrary: y store)
  case Nil
  then show ?case by simp
next
  case (Cons c cs)
  let ?row = "sortBy (pieceCompare s0) (G c)"
  let ?h = "tallestIn s0 ?row"
  let ?s' = "placeRow P y minX ?row store"
  let ?y' = "y + ?h + 2 * P"
  have len: "length store = length s0" using Cons.prems(5) by (rule same_tiles_length)
  have gc: "map_of groups c = Some (G c)" using Cons.prems(2) by simp
  have dG: "distinct (G c)" and rG: "\<forall>p\<in>set (G c). p < length s0"
    using Cons.prems(3) by simp_all
  have srow: "set ?row = set (G c)" by (rule set_sortBy)
  have drow: "distinct ?row" using dG by (simp add: distinct_sortBy)
  have rrow: "\<forall>p\<in>set ?row. p < length store" using rG srow len by simp
  have sort_eq: "sortBy (pieceCompare store) (G c) = ?row"
    using Cons.prems(5) rG by (rule sortBy_pieceCompare_same)
  have "foldl max 0 (map (\<lambda>p. height (originalTile (store ! p))) (G c)) = tallestIn store (G c)"
    by (simp add: tallestIn_def)
  also have "\<dots> = tallestIn s0 (G c)" using Cons.prems(5) rG by (rule tallestIn_same)
  also have "\<dots> = ?h" using srow by (intro tallestIn_set) simp
  finally have h_eq: "foldl max 0 (map (\<lambda>p. height (originalTile (store ! p))) (G c)) = ?h" .
  have y2: "y + ?h + P * 2 = y + ?h + 2 * P" by simp
  have step: "placeColors P minX groups y (c # cs) store = placeColors P minX groups ?y' cs ?s'"
    by (simp only: placeColors.simps gc option.case Let_def sort_eq h_eq y2)
  have same': "map originalTile ?s' = map originalTile s0"
    using Cons.prems(5) by (simp add: map_originalTile_placeRow)
  have ih: "map originalTile (placeColors P minX groups ?y' cs ?s') = map originalTile s0
    \<and> (\<forall>i. (\<forall>c\<in>set cs. i \<notin> set (G c)) \<longrightarrow>
          placeColors P minX groups ?y' cs ?s' ! i = ?s' ! i)
    \<and> (\<forall>k<length cs. \<forall>j<length (G (cs ! k)).
          placeColors P minX groups ?y' cs ?s' ! (sortBy (pieceCompare s0) (G (cs ! k)) ! j)
            = (?s' ! (sortBy (pieceCompare s0) (G (cs ! k)) ! j))
                \<lparr>piece_x := rowXs P minX (widthsIn s0 (sortBy (pieceCompare s0) (G (cs ! k)))) ! j,
                 piece_y := rowYs P ?y'
                   (map (\<lambda>c. tallestIn s0 (sortBy (pieceCompare s0) (G c))) cs) ! k\<rparr>)"
    using Cons.prems same' by (intro Cons.IH) simp_all
  have A: "map originalTile (placeColors P minX groups y (c # cs) store) = map originalTile s0"
    using ih step by simp
  have B: "\<forall>i. (\<forall>c'\<in>set (c # cs). i \<notin> set (G c')) \<longrightarrow>
          placeColors P minX groups y (c # cs) store ! i = store ! i"
  proof (intro allI impI)
    fix i assume i: "\<forall>c'\<in>set (c # cs). i \<notin> set (G c')"
    then have "placeColors P minX groups ?y' cs ?s' ! i = ?s' ! i" using ih by simp
    moreover have "i \<notin> set ?row" using i srow by simp
    then have "?s' ! i = store ! i" by (rule placeRow_other)
    ultimately show "placeColors P minX groups y (c # cs) store ! i = store ! i"
      using step by simp
  qed
  have C: "\<forall>k<length (c # cs). \<forall>j<length (G ((c # cs) ! k)).
          placeColors P minX groups y (c # cs) store
              ! (sortBy (pieceCompare s0) (G ((c # cs) ! k)) ! j)
            = (store ! (sortBy (pieceCompare s0) (G ((c # cs) ! k)) ! j))
                \<lparr>piece_x := rowXs P minX
                    (widthsIn s0 (sortBy (pieceCompare s0) (G ((c # cs) ! k)))) ! j,
                 piece_y := rowYs P y
                   (map (\<lambda>c. tallestIn s0 (sortBy (pieceCompare s0) (G c))) (c # cs)) ! k\<rparr>"
  proof (intro allI impI)
    fix k j assume k: "k < length (c # cs)" and j: "j < length (G ((c # cs) ! k))"
    show "placeColors P minX groups y (c # cs) store
              ! (sortBy (pieceCompare s0) (G ((c # cs) ! k)) ! j)
            = (store ! (sortBy (pieceCompare s0) (G ((c # cs) ! k)) ! j))
                \<lparr>piece_x := rowXs P minX
                    (widthsIn s0 (sortBy (pieceCompare s0) (G ((c # cs) ! k)))) ! j,
                 piece_y := rowYs P y
                   (map (\<lambda>c. tallestIn s0 (sortBy (pieceCompare s0) (G c))) (c # cs)) ! k\<rparr>"
    proof (cases k)
      case 0
      from j 0 have jr: "j < length ?row" by (simp add: length_sortBy)
      let ?q = "?row ! j"
      have qin: "?q \<in> set (G c)" using jr srow nth_mem by blast
      have "\<forall>c'\<in>set cs. ?q \<notin> set (G c')"
      proof
        fix c' assume c': "c' \<in> set cs"
        with Cons.prems(1) have "c \<noteq> c'" by auto
        with Cons.prems(4) c' have "set (G c) \<inter> set (G c') = {}" by simp
        with qin show "?q \<notin> set (G c')" by blast
      qed
      then have "placeColors P minX groups ?y' cs ?s' ! ?q = ?s' ! ?q" using ih by simp
      moreover have "?s' ! ?q = (store ! ?q)\<lparr>piece_x := rowXs P minX (widthsIn store ?row) ! j,
          piece_y := y\<rparr>"
        using drow rrow jr by (rule placeRow_placed)
      moreover have "widthsIn store ?row = widthsIn s0 ?row"
        using Cons.prems(5) rG srow by (intro widthsIn_same) simp_all
      ultimately show ?thesis using step 0 by simp
    next
      case (Suc k')
      with k have k': "k' < length cs" by simp
      from j Suc have j': "j < length (G (cs ! k'))" by simp
      let ?c' = "cs ! k'"
      let ?q = "sortBy (pieceCompare s0) (G ?c') ! j"
      have c'in: "?c' \<in> set cs" using k' by simp
      have "?q \<in> set (sortBy (pieceCompare s0) (G ?c'))"
        using j' by (simp add: length_sortBy)
      then have qin: "?q \<in> set (G ?c')" by (simp add: set_sortBy)
      have "c \<noteq> ?c'" using Cons.prems(1) c'in by auto
      with Cons.prems(4) c'in have "set (G c) \<inter> set (G ?c') = {}" by simp
      with qin have "?q \<notin> set ?row" using srow by blast
      then have "?s' ! ?q = store ! ?q" by (rule placeRow_other)
      moreover from ih k' j'
      have "placeColors P minX groups ?y' cs ?s' ! ?q
            = (?s' ! ?q)
                \<lparr>piece_x := rowXs P minX (widthsIn s0 (sortBy (pieceCompare s0) (G ?c'))) ! j,
                 piece_y := rowYs P ?y'
                   (map (\<lambda>c. tallestIn s0 (sortBy (pieceCompare s0) (G c))) cs) ! k'\<rparr>"
        by blast
      ultimately show ?thesis using step Suc by simp
    qed
  qed
  from A B C show ?case by blast
qed

subsection \<open>The colour groups of the offcuts\<close>

lemma map_of_groupOffcutStep:
  "map_of (groupOffcutStep store m p) c =
     (if color (originalTile (store ! p)) = c
      then Some ((case map_of m c of None \<Rightarrow> [] | Some g \<Rightarrow> g) @ [p])
      else map_of m c)"
  by (auto simp: groupOffcutStep_def Let_def map_of_recordSet split: option.splits)

lemma map_of_foldl_groupOffcutStep:
  "map_of (foldl (groupOffcutStep store) m ps) c =
     (if filter (\<lambda>p. color (originalTile (store ! p)) = c) ps = [] then map_of m c
      else Some ((case map_of m c of None \<Rightarrow> [] | Some g \<Rightarrow> g)
                 @ filter (\<lambda>p. color (originalTile (store ! p)) = c) ps))"
proof (induction ps arbitrary: m)
  case Nil
  show ?case by simp
next
  case (Cons p ps)
  show ?case
    unfolding foldl_Cons Cons.IH [of "groupOffcutStep store m p"] map_of_groupOffcutStep
    by (auto split: option.splits)
qed

lemma map_of_offcut_groups:
  "map_of (offcutPiecesByColor store) c =
     (if offcutIndices store c = [] then None else Some (offcutIndices store c))"
  by (simp add: offcutPiecesByColor_def map_of_foldl_groupOffcutStep offcutIndices_def
      conj_commute)

lemma keys_groupOffcutStep:
  "map fst (groupOffcutStep store m p) =
     (if color (originalTile (store ! p)) \<in> set (map fst m) then map fst m
      else map fst m @ [color (originalTile (store ! p))])"
  by (auto simp: groupOffcutStep_def Let_def keys_recordSet map_of_eq_None_iff
      simp del: set_map)

lemma keys_foldl_groupOffcutStep:
  "map fst (foldl (groupOffcutStep store) m ps) =
     foldl (\<lambda>ks k. if k \<in> set ks then ks else ks @ [k]) (map fst m)
       (map (\<lambda>p. color (originalTile (store ! p))) ps)"
proof (induction ps arbitrary: m)
  case Nil
  show ?case by simp
next
  case (Cons p ps)
  show ?case
    unfolding foldl_Cons list.map Cons.IH [of "groupOffcutStep store m p"] keys_groupOffcutStep
    by simp
qed

lemma map_filter_nth:
  "map (\<lambda>p. f (s ! p)) (filter (\<lambda>p. Q (s ! p)) [0..<length s]) = map f (filter Q s)"
proof -
  have "map f (filter Q s) = map f (filter Q (map (\<lambda>p. s ! p) [0..<length s]))"
    by (simp only: map_nth)
  also have "\<dots> = map (\<lambda>p. f (s ! p)) (filter (\<lambda>p. Q (s ! p)) [0..<length s])"
    by (simp add: filter_map comp_def)
  finally show ?thesis by simp
qed

lemma keys_offcut_groups: "map fst (offcutPiecesByColor store) = offcutColors store"
  unfolding offcutPiecesByColor_def offcutColors_def keys_foldl_groupOffcutStep
  by (simp add: map_filter_nth [of "\<lambda>p. color (originalTile p)" store isOffcut])

lemma distinct_keys_groupOffcutStep:
  "distinct (map fst m) \<Longrightarrow> distinct (map fst (groupOffcutStep store m p))"
  by (simp add: groupOffcutStep_def Let_def distinct_keys_recordSet)

lemma distinct_keys_offcut_groups: "distinct (map fst (offcutPiecesByColor store))"
proof -
  have "distinct (map fst m) \<Longrightarrow> distinct (map fst (foldl (groupOffcutStep store) m ps))"
    for m ps
    by (induction ps arbitrary: m) (simp_all add: distinct_keys_groupOffcutStep)
  then show ?thesis by (simp add: offcutPiecesByColor_def)
qed

lemma offcut_group_lookup:
  assumes "c \<in> set (offcutColors store)"
  shows "map_of (offcutPiecesByColor store) c = Some (offcutIndices store c)"
proof -
  from assms have "c \<in> fst ` set (offcutPiecesByColor store)"
    by (simp add: keys_offcut_groups [symmetric])
  then obtain g where "map_of (offcutPiecesByColor store) c = Some g"
    by (metis map_of_eq_None_iff not_Some_eq)
  then show ?thesis by (simp add: map_of_offcut_groups split: if_splits)
qed

lemma offcut_color_mem:
  assumes "p < length store" and "isOffcut (store ! p)"
  shows "color (originalTile (store ! p)) \<in> set (offcutColors store)"
proof -
  let ?c = "color (originalTile (store ! p))"
  from assms have "p \<in> set (offcutIndices store ?c)" by (simp add: offcutIndices_def)
  then have "offcutIndices store ?c \<noteq> []" by auto
  then have "map_of (offcutPiecesByColor store) ?c \<noteq> None"
    by (simp add: map_of_offcut_groups)
  then have "?c \<in> fst ` set (offcutPiecesByColor store)"
    by (simp add: map_of_eq_None_iff)
  then show ?thesis by (simp add: keys_offcut_groups [symmetric])
qed

lemma offcutIndices_props:
  "distinct (offcutIndices store c) \<and> (\<forall>p\<in>set (offcutIndices store c). p < length store)"
  by (simp add: offcutIndices_def)

lemma offcutIndices_disjoint:
  "c \<noteq> c' \<Longrightarrow> set (offcutIndices store c) \<inter> set (offcutIndices store c') = {}"
  by (auto simp: offcutIndices_def)

subsection \<open>The sort key of a number written by the renumbering\<close>

lemma digit_cases: "d < 10 \<Longrightarrow> d \<in> {0, 1, 2, 3, 4, 5, 6, 7, 8, 9 :: nat}"
  by auto

lemma digitChar_mem: "d < 10 \<Longrightarrow> digitChar d \<in> set ''0123456789''"
  using digit_cases [of d] by (auto simp: digitChar_def)

lemma digitOf_digitChar: "d < 10 \<Longrightarrow> digitOf (digitChar d) = Some d"
  using digit_cases [of d] by (auto simp: digitChar_def digitOf_def)

lemma showNat_digits: "set (showNat n) \<subseteq> set ''0123456789''"
proof (induction n rule: showNat.induct)
  case (1 n)
  show ?case
  proof (cases "n < 10")
    case True
    then have "showNat n = [digitChar n]" by (subst showNat.simps) simp
    with digitChar_mem [OF True] show ?thesis by simp
  next
    case False
    then have s: "showNat n = showNat (n div 10) @ [digitChar (n mod 10)]"
      by (subst showNat.simps) simp
    have "digitChar (n mod 10) \<in> set ''0123456789''" by (rule digitChar_mem) simp
    with 1 [OF False] show ?thesis unfolding s by simp
  qed
qed

lemma showNat_nonempty: "showNat n \<noteq> []"
  by (subst showNat.simps) simp

lemma radixDigits_append:
  "length (radixDigits R xs) = length xs \<Longrightarrow>
     radixDigits R (xs @ ys) = radixDigits R xs @ radixDigits R ys"
  by (induction xs) (auto split: option.splits if_splits)

lemma radixDigits_showNat:
  "length (radixDigits 10 (showNat n)) = length (showNat n)
   \<and> foldl (\<lambda>acc d. acc * 10 + d) a (radixDigits 10 (showNat n))
       = a * 10 ^ length (showNat n) + n"
proof (induction n arbitrary: a rule: showNat.induct)
  case (1 n)
  show ?case
  proof (cases "n < 10")
    case True
    then have "showNat n = [digitChar n]" by (subst showNat.simps) simp
    with digitOf_digitChar [OF True] True show ?thesis by simp
  next
    case False
    let ?m = "n div 10" and ?d = "n mod 10"
    have s: "showNat n = showNat ?m @ [digitChar ?d]"
      using False by (subst showNat.simps) simp
    have d: "radixDigits 10 [digitChar ?d] = [?d]"
      using digitOf_digitChar [of ?d] by simp
    note ih = 1 [OF False]
    have len: "length (radixDigits 10 (showNat ?m)) = length (showNat ?m)"
      using ih [of a] by simp
    have r: "radixDigits 10 (showNat n) = radixDigits 10 (showNat ?m) @ [?d]"
      unfolding s using radixDigits_append [OF len, of "[digitChar ?d]"] d by simp
    have "foldl (\<lambda>acc d. acc * 10 + d) a (radixDigits 10 (showNat n))
        = (a * 10 ^ length (showNat ?m) + ?m) * 10 + ?d"
      unfolding r using ih [of a] by simp
    also have "\<dots> = a * 10 ^ length (showNat n) + (?m * 10 + ?d)"
      unfolding s by (simp add: algebra_simps)
    also have "?m * 10 + ?d = n" by simp
    finally show ?thesis using len r by (simp add: s)
  qed
qed

lemma parseInt_showNat: "parseInt (showNat n) = Some (real n)"
proof -
  obtain c cs where s: "showNat n = c # cs"
    using showNat_nonempty [of n] by (cases "showNat n") simp_all
  have cd: "c \<in> set ''0123456789''" using showNat_digits [of n] s by auto
  have "\<not> isStrWhiteSpace c" using cd by (auto simp: isStrWhiteSpace_def)
  then have dw: "dropWhile isStrWhiteSpace (showNat n) = showNat n" by (simp add: s)
  have "c \<noteq> CHR ''-''" "c \<noteq> CHR ''+''" using cd by auto
  then have sg1: "(showNat n \<noteq> [] \<and> hd (showNat n) = CHR ''-'') = False"
    and sg2: "(showNat n \<noteq> [] \<and> (hd (showNat n) = CHR ''+'' \<or> hd (showNat n) = CHR ''-''))
        = False"
    by (simp_all add: s)
  have "cs \<noteq> [] \<Longrightarrow> hd cs \<in> set ''0123456789''"
    using showNat_digits [of n] s by (cases cs) auto
  then have "take 2 (c # cs) \<noteq> ''0x''" "take 2 (c # cs) \<noteq> ''0X''"
    by (cases cs; auto)+
  then have hx: "(take 2 (showNat n) = ''0x'' \<or> take 2 (showNat n) = ''0X'') = False"
    by (simp add: s)
  have z: "(radixDigits 10 (showNat n) = []) = False"
    using radixDigits_showNat [of n 0] showNat_nonempty [of n] by auto
  have v: "foldl (\<lambda>acc d. acc * 10 + d) 0 (radixDigits 10 (showNat n)) = n"
    using radixDigits_showNat [of n 0] by simp
  show ?thesis
    by (simp only: parseInt_def Let_def dw sg1 sg2 hx if_False z v) simp
qed

lemma splitOn_no_sep: "sep \<notin> set xs \<Longrightarrow> splitOn sep xs = [xs]"
  by (induction xs) auto

lemma splitOn_first: "sep \<notin> set xs \<Longrightarrow> splitOn sep (xs @ sep # ys) = xs # splitOn sep ys"
  by (induction xs) auto

lemma dash_not_digit: "CHR ''-'' \<notin> set (showNat n)"
  using showNat_digits [of n] by auto

lemma ordinalKey_renumbered:
  "ordinalKey (t\<lparr>number := Some (showNat i @ ''-'' @ showNat k)\<rparr>) = Some (real k)"
proof -
  have "splitOn CHR ''-'' (showNat i @ CHR ''-'' # showNat k) = [showNat i, showNat k]"
    by (simp add: splitOn_first splitOn_no_sep dash_not_digit)
  then show ?thesis
    by (simp add: ordinalKey_def Let_def showNat_nonempty parseInt_showNat)
qed

text \<open>
  For a colour outside the palette the number starts with \<open>-1\<close>, and the part after the
  first dash is \<open>1\<close> whatever the ordinal is.
\<close>

lemma ordinalKey_outside_palette:
  "ordinalKey (t\<lparr>number := Some (showInt (- 1) @ ''-'' @ showNat k)\<rparr>) = Some 1"
proof -
  have one: "showNat (Suc 0) = ''1''" by (simp add: showNat.simps digitChar_def)
  have "splitOn CHR ''-'' (CHR ''-'' # ''1'' @ CHR ''-'' # showNat k) = [[], ''1'', showNat k]"
    using splitOn_first [of "CHR ''-''" "''1''" "showNat k"]
    by (simp add: splitOn_no_sep dash_not_digit)
  moreover have "parseInt ''1'' = Some 1"
    using parseInt_showNat [of 1] by (simp add: one)
  ultimately show ?thesis
    by (simp add: ordinalKey_def Let_def showInt_def one)
qed

subsection \<open>The layout\<close>

lemma handleCut_pieces:
  assumes "filter (\<lambda>a. isClosed a \<and> isVisible a) areas \<noteq> []" and "tiles \<noteq> []"
  shows "piecesOf (handleCut areas tiles dims) =
     placeColors (dim_width dims / 2) (layoutMinX areas tiles)
       (offcutPiecesByColor (piecesBeforeLayout areas tiles))
       (layoutMaxY areas tiles + dim_width dims / 2 * 3)
       (sortBy paletteCompare (offcutColors (piecesBeforeLayout areas tiles)))
       (piecesBeforeLayout areas tiles)"
  using assms
  by (simp add: handleCut_def Let_def piecesOf_def piecesBeforeLayout_def keys_offcut_groups)

lemma sorted_palette:
  "sorted_wrt (\<lambda>a b. indexOf TILE_COLORS a \<le> indexOf TILE_COLORS b) (sortBy paletteCompare cs)"
proof -
  have "sorted_wrt (\<lambda>a b. real_of_int (indexOf TILE_COLORS a) \<le> real_of_int (indexOf TILE_COLORS b))
      (sortBy paletteCompare cs)"
    by (rule sorted_sortBy_key) (simp add: paletteCompare_def)
  then show ?thesis by simp
qed

lemma sorted_row:
  assumes "\<forall>p\<in>set ps. ordinalKey (originalTile (store ! p)) \<noteq> None"
  shows "sorted_wrt (\<lambda>a b. ordinalNumber (originalTile (store ! a))
                          \<le> ordinalNumber (originalTile (store ! b)))
           (sortBy (pieceCompare store) ps)"
proof (rule sorted_sortBy_key, intro ballI)
  fix a b assume "a \<in> set ps" "b \<in> set ps"
  with assms have "ordinalKey (originalTile (store ! a)) \<noteq> None"
    "ordinalKey (originalTile (store ! b)) \<noteq> None" by blast+
  then obtain u v where "ordinalKey (originalTile (store ! a)) = Some u"
    "ordinalKey (originalTile (store ! b)) = Some v" by blast
  then show "(pieceCompare store a b < 0)
      = (ordinalNumber (originalTile (store ! a)) < ordinalNumber (originalTile (store ! b)))"
    by (simp add: pieceCompare_def ordinalNumber_def)
qed

text \<open>
  Claim C8, as amended.  The claim as stated fails in one place: the first row does not
  start one padding below the bounding box but three (the padding is half the nominal tile
  width).  What holds when there is a closed visible area and a tile: the layout changes
  nothing but the positions of the offcuts; every offcut lies in the row of its colour;
  the rows are those of the offcut colours sorted by palette index, each row sorted by
  the sort key of its tiles' numbers whenever these all parse, and the sort key of a number
  made of a palette index, a dash and an ordinal is the ordinal; in a row the first piece
  is at the left edge of the bounding box and each next piece is further right by the
  width of the previous piece's tile plus the padding; the first row is at the lower edge
  of the bounding box plus three paddings and each next row is further down by the tallest
  tile of the previous row (at least 0) plus twice the padding.
\<close>

theorem offcut_layout:
  assumes closed: "filter (\<lambda>a. isClosed a \<and> isVisible a) areas \<noteq> []" and tiles: "tiles \<noteq> []"
    and all: "all = piecesBeforeLayout areas tiles"
    and placed: "placed = piecesOf (handleCut areas tiles dims)"
    and rows: "rows = offcutRows all"
    and pad: "pad = dim_width dims / 2"
  shows "length placed = length all
    \<and> (\<forall>i<length all. placed ! i
          = (all ! i)\<lparr>piece_x := piece_x (placed ! i), piece_y := piece_y (placed ! i)\<rparr>)
    \<and> (\<forall>i<length all. \<not> isOffcut (all ! i) \<longrightarrow> placed ! i = all ! i)
    \<and> (\<forall>i<length all. isOffcut (all ! i) \<longrightarrow> (\<exists>k<length rows. i \<in> set (rows ! k)))
    \<and> (\<forall>k<length rows. \<forall>j<length (rows ! k).
          piece_x (placed ! (rows ! k ! j))
            = rowXs pad (layoutMinX areas tiles) (widthsIn all (rows ! k)) ! j
          \<and> piece_y (placed ! (rows ! k ! j))
            = rowYs pad (layoutMaxY areas tiles + 3 * pad) (map (tallestIn all) rows) ! k)
    \<and> rows = map (rowOf all) (sortBy paletteCompare (offcutColors all))
    \<and> sorted_wrt (\<lambda>a b. indexOf TILE_COLORS a \<le> indexOf TILE_COLORS b)
          (sortBy paletteCompare (offcutColors all))
    \<and> (\<forall>k<length rows.
          (\<forall>p\<in>set (rows ! k). ordinalKey (originalTile (all ! p)) \<noteq> None) \<longrightarrow>
          sorted_wrt (\<lambda>a b. ordinalNumber (originalTile (all ! a))
                              \<le> ordinalNumber (originalTile (all ! b))) (rows ! k))
    \<and> ordinalKey (t\<lparr>number := Some (showNat i @ ''-'' @ showNat n)\<rparr>) = Some (real n)"
proof -
  let ?cs = "sortBy paletteCompare (offcutColors all)"
  let ?G = "offcutIndices all"
  let ?y0 = "layoutMaxY areas tiles + 3 * pad"
  have pl: "placed = placeColors pad (layoutMinX areas tiles) (offcutPiecesByColor all) ?y0 ?cs all"
    unfolding placed all pad using handleCut_pieces [OF closed tiles, of dims]
    by (simp add: mult.commute)
  have dcs: "distinct ?cs"
    using distinct_keys_offcut_groups [of all]
    by (simp add: distinct_sortBy keys_offcut_groups)
  have scs: "set ?cs = set (offcutColors all)" by (rule set_sortBy)
  have grp: "\<forall>c\<in>set ?cs. map_of (offcutPiecesByColor all) c = Some (?G c)"
    using scs offcut_group_lookup by blast
  have props: "\<forall>c\<in>set ?cs. distinct (?G c) \<and> (\<forall>p\<in>set (?G c). p < length all)"
    using offcutIndices_props by blast
  have disj: "\<forall>c\<in>set ?cs. \<forall>c'\<in>set ?cs. c \<noteq> c' \<longrightarrow> set (?G c) \<inter> set (?G c') = {}"
    using offcutIndices_disjoint by blast
  note main = placeColors_props [OF dcs grp props disj refl,
      of pad "layoutMinX areas tiles" ?y0, folded pl]
  have rws: "rows = map (rowOf all) ?cs" by (simp add: rows offcutRows_def)
  have lrows: "length rows = length ?cs" by (simp add: rws)
  have rk: "rows ! k = sortBy (pieceCompare all) (?G (?cs ! k))" if "k < length ?cs" for k
    using that by (simp add: rws rowOf_def)
  have tall: "map (tallestIn all) rows
      = map (\<lambda>c. tallestIn all (sortBy (pieceCompare all) (?G c))) ?cs"
    by (simp add: rws rowOf_def comp_def)
  have len: "length placed = length all"
    using main [THEN conjunct1] by (rule same_tiles_length)
  have pos: "placed ! (rows ! k ! j)
      = (all ! (rows ! k ! j))
          \<lparr>piece_x := rowXs pad (layoutMinX areas tiles) (widthsIn all (rows ! k)) ! j,
           piece_y := rowYs pad ?y0 (map (tallestIn all) rows) ! k\<rparr>"
    if k: "k < length rows" and j: "j < length (rows ! k)" for k j
  proof -
    from k have k': "k < length ?cs" by (simp add: lrows)
    from j have j': "j < length (?G (?cs ! k))" by (simp add: rk [OF k'] length_sortBy)
    from main [THEN conjunct2, THEN conjunct2] k' j' show ?thesis
      unfolding rk [OF k'] tall by blast
  qed
  have untouched: "placed ! i = all ! i" if "\<forall>c\<in>set ?cs. i \<notin> set (?G c)" for i
    using main [THEN conjunct2, THEN conjunct1] that by blast
  have inrow: "\<exists>k<length rows. i \<in> set (rows ! k)"
    if i: "i < length all" and o: "isOffcut (all ! i)" for i
  proof -
    let ?c = "color (originalTile (all ! i))"
    from i o have "?c \<in> set ?cs" by (simp add: scs offcut_color_mem)
    then obtain k where k: "k < length ?cs" "?cs ! k = ?c" by (auto simp: in_set_conv_nth)
    from i o have "i \<in> set (?G ?c)" by (simp add: offcutIndices_def)
    then have "i \<in> set (rows ! k)" using k by (simp add: rk set_sortBy)
    with k show ?thesis by (auto simp: lrows)
  qed
  have nonoff: "placed ! i = all ! i" if "\<not> isOffcut (all ! i)" for i
  proof (rule untouched)
    show "\<forall>c\<in>set ?cs. i \<notin> set (?G c)" using that by (simp add: offcutIndices_def)
  qed
  have frame: "placed ! i
      = (all ! i)\<lparr>piece_x := piece_x (placed ! i), piece_y := piece_y (placed ! i)\<rparr>"
    if i: "i < length all" for i
  proof (cases "isOffcut (all ! i)")
    case False
    then show ?thesis by (simp add: nonoff)
  next
    case True
    from inrow [OF i True] obtain k where k: "k < length rows" "i \<in> set (rows ! k)" by blast
    then obtain j where j: "j < length (rows ! k)" "rows ! k ! j = i"
      by (auto simp: in_set_conv_nth)
    from pos [OF k(1) j(1)] j(2) show ?thesis by simp
  qed
  have xy: "piece_x (placed ! (rows ! k ! j))
            = rowXs pad (layoutMinX areas tiles) (widthsIn all (rows ! k)) ! j
          \<and> piece_y (placed ! (rows ! k ! j))
            = rowYs pad ?y0 (map (tallestIn all) rows) ! k"
    if "k < length rows" and "j < length (rows ! k)" for k j
    using pos [OF that] by simp
  have srt: "sorted_wrt (\<lambda>a b. ordinalNumber (originalTile (all ! a))
                              \<le> ordinalNumber (originalTile (all ! b))) (rows ! k)"
    if k: "k < length rows"
      and ok: "\<forall>p\<in>set (rows ! k). ordinalKey (originalTile (all ! p)) \<noteq> None" for k
  proof -
    from k have k': "k < length ?cs" by (simp add: lrows)
    from ok have "\<forall>p\<in>set (?G (?cs ! k)). ordinalKey (originalTile (all ! p)) \<noteq> None"
      by (simp add: rk [OF k'] set_sortBy)
    then show ?thesis unfolding rk [OF k'] by (rule sorted_row)
  qed
  have key: "ordinalKey (t\<lparr>number := Some (showNat i @ ''-'' @ showNat n)\<rparr>) = Some (real n)"
    by (rule ordinalKey_renumbered)
  from len frame nonoff inrow xy rws sorted_palette srt key show ?thesis by blast
qed

lemmas eval_cut = cutTile_def inPiecePolygonsOf_def cutSegmentsOf_def tilePolygon_def
  fullTileOutline_def toLocal_def toLocalSegmentPoint_def isSegmentOnTileBoundary_def
  isPointOnSegment_def arePointsCollinear_def clipPolygonByPolygon_def crossProduct_def
  getLineIntersection_def polygonArea_def mkPoint_def Let_def upt_4 showInt_def
  showNat.simps digitChar_def correctedAreasOf_def isPolygonClockwise_def

lemma room_closed: "filter (\<lambda>a. isClosed a \<and> isVisible a) [roomSquare] = [roomSquare]"
  by (simp add: roomSquare_def)

lemma room_corrected: "correctedAreasOf [roomSquare] = [roomSquare]"
  by (simp add: correctedAreasOf_def isPolygonClockwise_def roomSquare_def mkPoint_def upt_4 Let_def)

text \<open>
  One tile of 500 by 500 at (800, 800) against the square room: the bounding box ends at
  \<open>y = 1300\<close>, the padding is 250, and the only offcut is placed at \<open>y = 2050\<close>, which is
  three paddings below the box.
\<close>

theorem layout_counterexample:
  "layoutMaxY [roomSquare] [cornerTile] = 1300 \<and> dim_width tileDims500 / 2 = 250
   \<and> map isOffcut (piecesOf (handleCut [roomSquare] [cornerTile] tileDims500)) = [False, True]
   \<and> map piece_x (piecesOf (handleCut [roomSquare] [cornerTile] tileDims500)) = [800, 0]
   \<and> map piece_y (piecesOf (handleCut [roomSquare] [cornerTile] tileDims500)) = [800, 2050]"
proof -
  define pieces where "pieces =
     [\<lparr>piece_id = ''7-in-0'', originalTile = cornerTile,
       polygons = [[mkPoint (- 1) 0 200, mkPoint (- 1) 0 0, mkPoint (- 1) 200 0,
                    mkPoint (- 1) 200 200]],
       cutSegments = None, piece_x = 800, piece_y = 800, isOffcut = False,
       wastePercentage = 0\<rparr>,
      \<lparr>piece_id = ''7-offcut'', originalTile = cornerTile,
       polygons = [[mkPoint (- 1) 0 0, mkPoint (- 1) 500 0, mkPoint (- 1) 500 500,
                    mkPoint (- 1) 0 500],
                   [mkPoint (- 1) 0 200, mkPoint (- 1) 0 0, mkPoint (- 1) 200 0,
                    mkPoint (- 1) 200 200]],
       cutSegments = Some [[mkPoint (- 1) 200 0, mkPoint (- 1) 200 200],
                           [mkPoint (- 1) 200 200, mkPoint (- 1) 0 200]],
       piece_x = 800, piece_y = 800, isOffcut = True, wastePercentage = 84\<rparr>]"
  have m: "layoutMaxY [roomSquare] [cornerTile] = 1300" "layoutMinX [roomSquare] [cornerTile] = 0"
    by (simp_all add: layoutMaxY_def layoutMinX_def allPointsOf_def roomSquare_def cornerTile_def
        mkPoint_def mathMax_def mathMin_def)
  have c: "foldl (cutTile [roomSquare]) [] [cornerTile] = pieces"
    by (simp add: pieces_def eval_cut roomSquare_def cornerTile_def)
  have g: "offcutPiecesByColor pieces = [(''#ef4444'', [1])]"
    by (simp add: pieces_def offcutPiecesByColor_def groupOffcutStep_def Let_def cornerTile_def
        upt_rec)
  have p: "placeColors (dim_width tileDims500 / 2) 0 [(''#ef4444'', [1])]
        (1300 + dim_width tileDims500 / 2 * 3) (sortBy paletteCompare [''#ef4444'']) pieces
      = [pieces ! 0, (pieces ! 1)\<lparr>piece_x := 0, piece_y := 2050\<rparr>]"
    by (simp add: tileDims500_def sortBy_def pieces_def cornerTile_def)
  have w: "filter (\<lambda>p. isOffcut p \<and> wastePercentage p \<ge> 999 / 10)
      [pieces ! 0, (pieces ! 1)\<lparr>piece_x := 0, piece_y := 2050\<rparr>] = []"
    by (simp add: pieces_def)
  have h: "handleCut [roomSquare] [cornerTile] tileDims500 =
      CutPiecesSet [pieces ! 0, (pieces ! 1)\<lparr>piece_x := 0, piece_y := 2050\<rparr>]"
    unfolding handleCut_def Let_def room_closed room_corrected c g m
    by (simp only: list.map fst_conv p w) simp
  show ?thesis
    unfolding h piecesOf_def
    by (simp add: m tileDims500_def pieces_def)
qed

text \<open>
  Three tiles, two of the first palette colour and one of the second: the rows are the
  pieces 3 and 1 (ordinals 1 and 2) and the piece 0; piece 2 is an in-piece and stays.
\<close>

lemma packing_pieces:
  "piecesBeforeLayout [roomSquare] packingTiles =
     [\<lparr>piece_id = ''8-offcut'', originalTile = orangeTile,
       polygons = [[mkPoint (- 1) 0 0, mkPoint (- 1) 500 0, mkPoint (- 1) 500 500,
                    mkPoint (- 1) 0 500]],
       cutSegments = Some [], piece_x = - 500, piece_y = 0, isOffcut = True,
       wastePercentage = 100\<rparr>,
      \<lparr>piece_id = ''9-offcut'', originalTile = farTile,
       polygons = [[mkPoint (- 1) 0 0, mkPoint (- 1) 500 0, mkPoint (- 1) 500 500,
                    mkPoint (- 1) 0 500]],
       cutSegments = Some [], piece_x = 2000, piece_y = 0, isOffcut = True,
       wastePercentage = 100\<rparr>,
      \<lparr>piece_id = ''7-in-0'', originalTile = cornerTile,
       polygons = [[mkPoint (- 1) 0 200, mkPoint (- 1) 0 0, mkPoint (- 1) 200 0,
                    mkPoint (- 1) 200 200]],
       cutSegments = None, piece_x = 800, piece_y = 800, isOffcut = False,
       wastePercentage = 0\<rparr>,
      \<lparr>piece_id = ''7-offcut'', originalTile = cornerTile,
       polygons = [[mkPoint (- 1) 0 0, mkPoint (- 1) 500 0, mkPoint (- 1) 500 500,
                    mkPoint (- 1) 0 500],
                   [mkPoint (- 1) 0 200, mkPoint (- 1) 0 0, mkPoint (- 1) 200 0,
                    mkPoint (- 1) 200 200]],
       cutSegments = Some [[mkPoint (- 1) 200 0, mkPoint (- 1) 200 200],
                           [mkPoint (- 1) 200 200, mkPoint (- 1) 0 200]],
       piece_x = 800, piece_y = 800, isOffcut = True, wastePercentage = 84\<rparr>]"
  unfolding piecesBeforeLayout_def room_closed room_corrected
  by (simp add: packingTiles_def orangeTile_def farTile_def eval_cut roomSquare_def cornerTile_def)

lemma packing_rows: "offcutRows (piecesBeforeLayout [roomSquare] packingTiles) = [[3, 1], [0]]"
proof -
  have k: "ordinalKey orangeTile = Some 1" "ordinalKey farTile = Some 2"
    "ordinalKey cornerTile = Some 1"
    by (simp_all add: orangeTile_def farTile_def cornerTile_def ordinalKey_def parseInt_def digitOf_def
        isStrWhiteSpace_def Let_def)
  have c: "color orangeTile = ''#f97316''" "color farTile = ''#ef4444''"
    "color cornerTile = ''#ef4444''"
    by (simp_all add: orangeTile_def farTile_def cornerTile_def)
  have i: "indexOf TILE_COLORS ''#f97316'' = 1" "indexOf TILE_COLORS ''#ef4444'' = 0"
    by (simp_all add: indexOf_def TILE_COLORS_def)
  have cols: "sortBy paletteCompare (offcutColors (piecesBeforeLayout [roomSquare] packingTiles))
      = [''#ef4444'', ''#f97316'']"
    unfolding packing_pieces by (simp add: offcutColors_def c sortBy_def paletteCompare_def i)
  have r0: "rowOf (piecesBeforeLayout [roomSquare] packingTiles) ''#ef4444'' = [3, 1]"
    unfolding packing_pieces
    by (simp add: rowOf_def offcutIndices_def upt_4 c sortBy_def pieceCompare_def k)
  have r1: "rowOf (piecesBeforeLayout [roomSquare] packingTiles) ''#f97316'' = [0]"
    unfolding packing_pieces
    by (simp add: rowOf_def offcutIndices_def upt_4 c sortBy_def pieceCompare_def k)
  show ?thesis by (simp add: offcutRows_def cols r0 r1)
qed

theorem offcut_layout_witness:
  "offcutRows (piecesBeforeLayout [roomSquare] packingTiles) = [[3, 1], [0]]
   \<and> layoutMinX [roomSquare] packingTiles = - 500
   \<and> layoutMaxY [roomSquare] packingTiles = 1300
   \<and> piece_x (piecesOf (handleCut [roomSquare] packingTiles tileDims500) ! 3) = - 500
   \<and> piece_y (piecesOf (handleCut [roomSquare] packingTiles tileDims500) ! 3) = 2050
   \<and> piece_x (piecesOf (handleCut [roomSquare] packingTiles tileDims500) ! 1) = 250
   \<and> piece_y (piecesOf (handleCut [roomSquare] packingTiles tileDims500) ! 1) = 2050
   \<and> piece_x (piecesOf (handleCut [roomSquare] packingTiles tileDims500) ! 0) = - 500
   \<and> piece_y (piecesOf (handleCut [roomSquare] packingTiles tileDims500) ! 0) = 3050
   \<and> piece_x (piecesOf (handleCut [roomSquare] packingTiles tileDims500) ! 2) = 800
   \<and> piece_y (piecesOf (handleCut [roomSquare] packingTiles tileDims500) ! 2) = 800"
proof -
  let ?all = "piecesBeforeLayout [roomSquare] packingTiles"
  let ?placed = "piecesOf (handleCut [roomSquare] packingTiles tileDims500)"
  have closed: "filter (\<lambda>a. isClosed a \<and> isVisible a) [roomSquare] \<noteq> []"
    unfolding room_closed by simp
  have tiles: "packingTiles \<noteq> []" by (simp add: packingTiles_def)
  have m: "layoutMinX [roomSquare] packingTiles = - 500"
    "layoutMaxY [roomSquare] packingTiles = 1300"
    by (simp_all add: layoutMaxY_def layoutMinX_def allPointsOf_def roomSquare_def
        packingTiles_def orangeTile_def farTile_def cornerTile_def mkPoint_def mathMax_def
        mathMin_def)
  have pad: "dim_width tileDims500 / 2 = 250" by (simp add: tileDims500_def)
  have w: "widthsIn ?all [3, Suc 0] = [500, 500]" "widthsIn ?all [0] = [500]"
    unfolding packing_pieces
    by (simp_all add: widthsIn_def orangeTile_def farTile_def cornerTile_def)
  have t: "map (tallestIn ?all) [[3, 1], [0]] = [500, 500]"
    unfolding packing_pieces
    by (simp add: tallestIn_def orangeTile_def farTile_def cornerTile_def)
  have n: "\<not> isOffcut (?all ! 2)" "piece_x (?all ! 2) = 800" "piece_y (?all ! 2) = 800"
    "length ?all = 4"
    unfolding packing_pieces by simp_all
  note lay = offcut_layout [OF closed tiles refl refl refl refl, of tileDims500]
  let ?rows = "[[3, 1], [0]] :: nat list list"
  have rows: "\<forall>k<length ?rows. \<forall>j<length (?rows ! k).
          piece_x (?placed ! (?rows ! k ! j))
            = rowXs 250 (- 500) (widthsIn ?all (?rows ! k)) ! j
          \<and> piece_y (?placed ! (?rows ! k ! j))
            = rowYs 250 (1300 + 3 * 250) [500, 500] ! k"
    using lay [THEN conjunct2, THEN conjunct2, THEN conjunct2, THEN conjunct2, THEN conjunct1]
    unfolding packing_rows m pad t by this
  have p3: "piece_x (?placed ! 3) = - 500 \<and> piece_y (?placed ! 3) = 2050"
    using rows [rule_format, of 0 0] by (simp add: w)
  have p1: "piece_x (?placed ! 1) = 250 \<and> piece_y (?placed ! 1) = 2050"
    using rows [rule_format, of 0 1] by (simp add: w)
  have p0: "piece_x (?placed ! 0) = - 500 \<and> piece_y (?placed ! 0) = 3050"
    using rows [rule_format, of 1 0] by (simp add: w)
  have "?placed ! 2 = ?all ! 2"
    using lay [THEN conjunct2, THEN conjunct2, THEN conjunct1] n by simp
  then have p2: "piece_x (?placed ! 2) = 800 \<and> piece_y (?placed ! 2) = 800"
    using n by simp
  from packing_rows m p3 p1 p0 p2 show ?thesis by simp
qed

end
